theory Spec2Isabelle
  imports Main
begin

section \<open>JavaScript values and strings\<close>

text \<open>
  The deployment scripts \<^verbatim>\<open>deploy/cf-api.mjs\<close> and the configuration resolver (the second
  source file, which derives names from a domain) work on strings, on the loosely typed
  values of the argument object and on parsed JSON. A value is one of the following;
  numbers are the integers (fractional numbers do not occur in the data the scripts read).
  Strings are lists of 8-bit characters; case conversion and whitespace are those of ASCII.
\<close>

datatype jv =
    JUndefined
  | JNull
  | JBool bool
  | JNum int
  | JStr string
  | JArr "jv list"
  | JObj "(string \<times> jv) list"

text \<open>The errors the scripts throw: \<^verbatim>\<open>new Error(message)\<close>, the platform's
  \<^verbatim>\<open>TypeError\<close>, the class \<^verbatim>\<open>CloudflareApiError\<close> with its fields
  (message, status, url, errors, bodyText), and a rejected \<^verbatim>\<open>fetch\<close>.\<close>

datatype error =
    Error string
  | TypeError string
  | CloudflareApiError string nat "string \<times> (string \<times> string) list" jv string
  | FetchRejected string

subsection \<open>Strings\<close>

definition startsWith :: "string \<Rightarrow> string \<Rightarrow> bool" where
  "startsWith p s = (take (length p) s = p)"

fun str_includes :: "string \<Rightarrow> string \<Rightarrow> bool" where
  "str_includes sub [] = (sub = [])"
| "str_includes sub (c # cs) = (startsWith sub (c # cs) \<or> str_includes sub cs)"

definition is_space :: "char \<Rightarrow> bool" where
  "is_space c = (c \<in> set [CHR 0x09, CHR 0x0A, CHR 0x0B, CHR 0x0C, CHR 0x0D, CHR 0x20])"

definition trim :: "string \<Rightarrow> string" where
  "trim s = rev (dropWhile is_space (rev (dropWhile is_space s)))"

definition lower_char :: "char \<Rightarrow> char" where
  "lower_char c =
     (case map_of (zip ''ABCDEFGHIJKLMNOPQRSTUVWXYZ'' ''abcdefghijklmnopqrstuvwxyz'') c of
        Some d \<Rightarrow> d
      | None \<Rightarrow> c)"

definition toLowerCase :: "string \<Rightarrow> string" where
  "toLowerCase s = map lower_char s"

fun join :: "string \<Rightarrow> string list \<Rightarrow> string" where
  "join sep [] = []"
| "join sep [x] = x"
| "join sep (x # y # ys) = x @ sep @ join sep (y # ys)"

text \<open>\<^verbatim>\<open>s.split(c)\<close> for a one-character separator: the pieces between the separators,
  one more than there are separators.\<close>

fun str_split :: "char \<Rightarrow> string \<Rightarrow> string list" where
  "str_split sep [] = [[]]"
| "str_split sep (c # cs) =
     (if c = sep then [] # str_split sep cs
      else (case str_split sep cs of p # ps \<Rightarrow> (c # p) # ps | [] \<Rightarrow> [[c]]))"

subsection \<open>Numbers as decimal strings\<close>

definition digit_char :: "nat \<Rightarrow> char" where
  "digit_char d = ''0123456789'' ! (d mod 10)"

fun show_nat :: "nat \<Rightarrow> string" where
  "show_nat n = (if n < 10 then [digit_char n] else show_nat (n div 10) @ [digit_char n])"

declare show_nat.simps [simp del]

definition show_int :: "int \<Rightarrow> string" where
  "show_int i = (if i < 0 then CHR ''-'' # show_nat (nat (- i)) else show_nat (nat i))"

subsection \<open>Coercions and property access\<close>

text \<open>\<^verbatim>\<open>String(v)\<close>: an array joins its elements with commas, with \<^verbatim>\<open>null\<close> and
  \<^verbatim>\<open>undefined\<close> elements as the empty string; a plain object is
  \<^verbatim>\<open>[object Object]\<close>.\<close>

fun js_String :: "jv \<Rightarrow> string" where
  "js_String JUndefined = ''undefined''"
| "js_String JNull = ''null''"
| "js_String (JBool b) = (if b then ''true'' else ''false'')"
| "js_String (JNum n) = show_int n"
| "js_String (JStr s) = s"
| "js_String (JArr xs) =
     join '','' (map (\<lambda>x. if x = JNull \<or> x = JUndefined then [] else js_String x) xs)"
| "js_String (JObj kvs) = ''[object Object]''"

text \<open>\<^verbatim>\<open>Boolean(v)\<close>, the truth value that \<^verbatim>\<open>!v\<close> and \<^verbatim>\<open>if (v)\<close> test.\<close>

fun truthy :: "jv \<Rightarrow> bool" where
  "truthy JUndefined = False"
| "truthy JNull = False"
| "truthy (JBool b) = b"
| "truthy (JNum n) = (n \<noteq> 0)"
| "truthy (JStr s) = (s \<noteq> [])"
| "truthy (JArr xs) = True"
| "truthy (JObj kvs) = True"

text \<open>\<^verbatim>\<open>a ?? b\<close>.\<close>

definition nullish :: "jv \<Rightarrow> jv \<Rightarrow> jv" where
  "nullish a b = (if a = JUndefined \<or> a = JNull then b else a)"

text \<open>\<^verbatim>\<open>v?.k\<close> for the property names the scripts read (none of them is a built-in
  property of a string, a number, a boolean or an array): \<^verbatim>\<open>undefined\<close> unless
  \<open>v\<close> is an object that has the property.\<close>

fun get_prop :: "string \<Rightarrow> jv \<Rightarrow> jv" where
  "get_prop k (JObj kvs) = (case map_of kvs k of Some v \<Rightarrow> v | None \<Rightarrow> JUndefined)"
| "get_prop k v = JUndefined"

text \<open>\<^verbatim>\<open>v?.[0]\<close>: the first element of an array, the first character of a string, the
  property \<^verbatim>\<open>"0"\<close> of an object.\<close>

fun index0 :: "jv \<Rightarrow> jv" where
  "index0 (JArr xs) = (case xs of [] \<Rightarrow> JUndefined | x # _ \<Rightarrow> x)"
| "index0 (JStr s) = (case s of [] \<Rightarrow> JUndefined | c # _ \<Rightarrow> JStr [c])"
| "index0 (JObj kvs) = get_prop ''0'' (JObj kvs)"
| "index0 v = JUndefined"

text \<open>A map from names to strings as an optional value: the environment
  (\<^verbatim>\<open>process.env.NAME\<close>).\<close>

definition env_get :: "(string \<rightharpoonup> string) \<Rightarrow> string \<Rightarrow> jv" where
  "env_get env k = (case env k of None \<Rightarrow> JUndefined | Some s \<Rightarrow> JStr s)"

section \<open>Command-line arguments (\<^verbatim>\<open>parseArgs\<close>, \<^verbatim>\<open>parseBool\<close>)\<close>

text \<open>The argument object \<^verbatim>\<open>out\<close> is a map from property names to values, created as
  \<^verbatim>\<open>{ _: [] }\<close>. An assignment \<^verbatim>\<open>out[key] = v\<close> of a string or a boolean sets the
  property, except for the key \<^verbatim>\<open>__proto__\<close>, where the platform ignores it.\<close>

type_synonym args = "string \<rightharpoonup> jv"

definition set_prop :: "args \<Rightarrow> string \<Rightarrow> jv \<Rightarrow> args" where
  "set_prop out key v = (if key = ''__proto__'' then out else out(key \<mapsto> v))"

definition arg_get :: "args \<Rightarrow> string \<Rightarrow> jv" where
  "arg_get a k = (case a k of None \<Rightarrow> JUndefined | Some v \<Rightarrow> v)"

text \<open>The loop of \<^verbatim>\<open>parseArgs\<close> over the remaining arguments. \<^verbatim>\<open>out._.push(arg)\<close> is a
  \<^verbatim>\<open>TypeError\<close> once an option \<^verbatim>\<open>--_\<close> has replaced the array.\<close>

fun parseArgs_loop :: "string list \<Rightarrow> args \<Rightarrow> error + args" where
  "parseArgs_loop [] out = Inr out"
| "parseArgs_loop (arg # rest) out =
     (if \<not> startsWith ''--'' arg then
        (case out ''_'' of
           Some (JArr xs) \<Rightarrow> parseArgs_loop rest (out(''_'' \<mapsto> JArr (xs @ [JStr arg])))
         | _ \<Rightarrow> Inl (TypeError ''out._.push is not a function''))
      else
        (let key = drop 2 arg in
         case rest of
           [] \<Rightarrow> parseArgs_loop rest (set_prop out key (JBool True))
         | next # rest' \<Rightarrow>
             if \<not> startsWith ''--'' next
             then parseArgs_loop rest' (set_prop out key (JStr next))
             else parseArgs_loop rest (set_prop out key (JBool True))))"

definition parseArgs :: "string list \<Rightarrow> error + args" where
  "parseArgs argv = parseArgs_loop argv [''_'' \<mapsto> JArr []]"

text \<open>The value that \<^verbatim>\<open>parseArgs\<close> gives an option, from the arguments that follow it: the
  next argument, or \<^verbatim>\<open>true\<close> when there is none or when it is an option itself.\<close>

definition option_value :: "string list \<Rightarrow> jv" where
  "option_value ys =
     (case ys of
        [] \<Rightarrow> JBool True
      | v # _ \<Rightarrow> if startsWith ''--'' v then JBool True else JStr v)"

definition parseBool :: "jv \<Rightarrow> bool" where
  "parseBool v =
     (case v of
        JBool b \<Rightarrow> b
      | JUndefined \<Rightarrow> False
      | _ \<Rightarrow>
        (let s = toLowerCase (trim (js_String v)) in
         if s = [] then False
         else s \<in> set [''1'', ''true'', ''yes'', ''y'', ''on'']))"

text \<open>The two boolean options of the \<^verbatim>\<open>ensure-dns-a\<close> command and the one of
  \<^verbatim>\<open>ensure-worker-routes\<close>, as the command handlers compute them.\<close>

definition dns_proxied :: "args \<Rightarrow> bool" where
  "dns_proxied a =
     (if arg_get a ''proxied'' = JUndefined then True else parseBool (arg_get a ''proxied''))"

definition dns_force :: "args \<Rightarrow> (string \<rightharpoonup> string) \<Rightarrow> bool" where
  "dns_force a env = parseBool (nullish (arg_get a ''force'') (env_get env ''FORCE_TAKEOVER_DNS''))"

definition routes_force :: "args \<Rightarrow> (string \<rightharpoonup> string) \<Rightarrow> bool" where
  "routes_force a env =
     parseBool (nullish (arg_get a ''force'') (env_get env ''FORCE_TAKEOVER_ROUTES''))"

section \<open>Domain normalisation (\<^verbatim>\<open>normalizeDomain\<close>)\<close>

text \<open>\<^verbatim>\<open>new URL(input)\<close> is the platform's parser: it is a parameter of the model, a function
  from the input to the fields the scripts read, or to nothing where the platform throws
  \<^verbatim>\<open>TypeError: Invalid URL\<close>. A host name that the platform returns never contains
  \<^verbatim>\<open>/\<close> (the host ends at the first one), which the type of the field records.\<close>

typedef hostname = "{s :: string. CHR ''/'' \<notin> set s}"
  by (rule exI [of _ "[]"]) simp

record url =
  url_protocol :: string
  url_hostname :: hostname
  url_pathname :: string
  url_search :: string
  url_hash :: string

text \<open>Trimming and searching never invent characters; the recursion of the normalisers
  ends because a host name cannot contain \<^verbatim>\<open>://\<close>.\<close>

lemma set_trim: "set (trim s) \<subseteq> set s"
proof
  fix x assume "x \<in> set (trim s)"
  then have "x \<in> set (dropWhile is_space (rev (dropWhile is_space s)))"
    by (simp add: trim_def)
  then have "x \<in> set (dropWhile is_space s)"
    by (auto dest: set_dropWhileD)
  then show "x \<in> set s"
    by (rule set_dropWhileD)
qed

lemma startsWith_set: "startsWith p s \<Longrightarrow> set p \<subseteq> set s"
  unfolding startsWith_def by (metis set_take_subset)

lemma str_includes_set: "str_includes sub s \<Longrightarrow> set sub \<subseteq> set s"
proof (induction s)
  case Nil
  then show ?case by simp
next
  case (Cons c cs)
  from Cons.prems have "startsWith sub (c # cs) \<or> str_includes sub cs" by simp
  then show ?case
  proof
    assume "startsWith sub (c # cs)"
    then show ?thesis by (rule startsWith_set)
  next
    assume "str_includes sub cs"
    then have "set sub \<subseteq> set cs" by (rule Cons.IH)
    then show ?thesis by auto
  qed
qed

lemma hostname_no_scheme: "\<not> str_includes ''://'' (trim (Rep_hostname h))"
proof
  assume "str_includes ''://'' (trim (Rep_hostname h))"
  then have "CHR ''/'' \<in> set (trim (Rep_hostname h))"
    by (auto dest: str_includes_set)
  then have "CHR ''/'' \<in> set (Rep_hostname h)"
    using set_trim by blast
  then show False using Rep_hostname [of h] by simp
qed

text \<open>\<^verbatim>\<open>s.replace(/\.+$/, '')\<close> and \<^verbatim>\<open>s.replace(/-+$/g, '')\<close>: the string without the
  run of the character at its end.\<close>

definition strip_trailing :: "char \<Rightarrow> string \<Rightarrow> string" where
  "strip_trailing c s = rev (dropWhile (\<lambda>x. x = c) (rev s))"

text \<open>\<^verbatim>\<open>/^[a-z0-9.-]+$/.test(s)\<close> and \<^verbatim>\<open>/^[a-z0-9-]+$/.test(s)\<close>.\<close>

definition hostname_chars :: "string \<Rightarrow> bool" where
  "hostname_chars s =
     (s \<noteq> [] \<and> list_all (\<lambda>c. c \<in> set ''abcdefghijklmnopqrstuvwxyz0123456789.-'') s)"

definition label_chars :: "string \<Rightarrow> bool" where
  "label_chars s =
     (s \<noteq> [] \<and> list_all (\<lambda>c. c \<in> set ''abcdefghijklmnopqrstuvwxyz0123456789-'') s)"

definition endsWith :: "string \<Rightarrow> string \<Rightarrow> bool" where
  "endsWith p s = startsWith (rev p) (rev s)"

text \<open>The normaliser of \<^verbatim>\<open>deploy/cf-api.mjs\<close>.\<close>

function normalizeDomain_cf :: "(string \<Rightarrow> url option) \<Rightarrow> jv \<Rightarrow> error + string" where
  "normalizeDomain_cf URL raw =
     (if \<not> truthy raw then Inl (Error ''DOMAIN is required'')
      else
        let input = trim (js_String raw) in
        if input = [] then Inl (Error ''DOMAIN is required'')
        else if str_includes ''://'' input then
          (case URL input of
             None \<Rightarrow> Inl (TypeError ''Invalid URL'')
           | Some u \<Rightarrow>
               if url_protocol u \<noteq> ''http:'' \<and> url_protocol u \<noteq> ''https:''
               then Inl (Error ''DOMAIN must be a hostname or a http(s) URL'')
               else if url_pathname u \<noteq> ''/'' \<or> url_search u \<noteq> [] \<or> url_hash u \<noteq> []
               then Inl (Error ''DOMAIN URL must not include path/query/hash'')
               else normalizeDomain_cf URL (JStr (Rep_hostname (url_hostname u))))
        else if str_includes ''/'' input \<or> str_includes ''?'' input \<or> str_includes ''#'' input
        then Inl (Error ''DOMAIN must not include path/query/hash'')
        else if str_includes '':'' input
        then Inl (Error ''DOMAIN must not include a port'')
        else
          let domain = toLowerCase (strip_trailing (CHR ''.'') input) in
          if \<not> str_includes ''.'' domain
          then Inl (Error ''DOMAIN must contain at least one dot, e.g. notes.example.com'')
          else Inr domain)"
  by pat_completeness auto

termination normalizeDomain_cf
  by (relation "measure (\<lambda>(URL, raw). if str_includes ''://'' (trim (js_String raw)) then 1 else 0)")
     (simp_all add: hostname_no_scheme)

declare normalizeDomain_cf.simps [simp del]

text \<open>The loop over the labels in the normaliser of the configuration resolver: the first
  check that fails throws.\<close>

fun check_labels :: "string list \<Rightarrow> error option" where
  "check_labels [] = None"
| "check_labels (label # rest) =
     (if label = [] then Some (Error ''DOMAIN contains an empty label'')
      else if length label > 63 then Some (Error ''DOMAIN label is too long'')
      else if \<not> label_chars label then Some (Error ''DOMAIN label contains invalid characters'')
      else if startsWith ''-'' label \<or> endsWith ''-'' label
      then Some (Error ''DOMAIN label must not start or end with \"-\"'')
      else check_labels rest)"

text \<open>The normaliser of the configuration resolver.\<close>

function normalizeDomain_rc :: "(string \<Rightarrow> url option) \<Rightarrow> jv \<Rightarrow> error + string" where
  "normalizeDomain_rc URL raw =
     (if \<not> truthy raw then Inl (Error ''DOMAIN is required'')
      else
        let input = trim (js_String raw) in
        if input = [] then Inl (Error ''DOMAIN is required'')
        else if str_includes ''://'' input then
          (case URL input of
             None \<Rightarrow> Inl (TypeError ''Invalid URL'')
           | Some u \<Rightarrow>
               if url_protocol u \<noteq> ''http:'' \<and> url_protocol u \<noteq> ''https:''
               then Inl (Error ''DOMAIN must be a hostname or a http(s) URL'')
               else if url_pathname u \<noteq> ''/'' \<or> url_search u \<noteq> [] \<or> url_hash u \<noteq> []
               then Inl (Error ''DOMAIN URL must not include path/query/hash'')
               else normalizeDomain_rc URL (JStr (Rep_hostname (url_hostname u))))
        else if str_includes ''/'' input \<or> str_includes ''?'' input \<or> str_includes ''#'' input
        then Inl (Error ''DOMAIN must not include path/query/hash'')
        else if str_includes '':'' input
        then Inl (Error ''DOMAIN must not include a port'')
        else
          let domain = toLowerCase (strip_trailing (CHR ''.'') input) in
          if domain = [] then Inl (Error ''DOMAIN is required'')
          else if \<not> hostname_chars domain
          then Inl (Error ''DOMAIN must be an ASCII hostname (use punycode for IDN)'')
          else if \<not> str_includes ''.'' domain
          then Inl (Error ''DOMAIN must contain at least one dot, e.g. notes.example.com'')
          else if length domain > 253 then Inl (Error ''DOMAIN is too long'')
          else
            (case check_labels (str_split (CHR ''.'') domain) of
               Some e \<Rightarrow> Inl e
             | None \<Rightarrow> Inr domain))"
  by pat_completeness auto

termination normalizeDomain_rc
  by (relation "measure (\<lambda>(URL, raw). if str_includes ''://'' (trim (js_String raw)) then 1 else 0)")
     (simp_all add: hostname_no_scheme)

declare normalizeDomain_rc.simps [simp del]

text \<open>The normalised domain of the data model: the characters of a host name, a dot, at most
  253 characters, and every label passing the checks of the loop.\<close>

definition NormalizedDomain :: "string \<Rightarrow> bool" where
  "NormalizedDomain d =
     (hostname_chars d \<and> str_includes ''.'' d \<and> length d \<le> 253
      \<and> check_labels (str_split (CHR ''.'') d) = None)"

text \<open>The platform's \<^verbatim>\<open>new URL\<close> at the inputs of the examples below (the URL standard:
  the port is not part of \<^verbatim>\<open>hostname\<close>, and an empty path of an http URL is \<^verbatim>\<open>/\<close>). It
  stands for the platform at these inputs only.\<close>

definition URL_sample :: "string \<Rightarrow> url option" where
  "URL_sample s =
     (if s = ''http://example.com:8080''
      then Some \<lparr> url_protocol = ''http:'', url_hostname = Abs_hostname ''example.com'',
                  url_pathname = ''/'', url_search = [], url_hash = [] \<rparr>
      else if s = ''HTTPS://Notes.Example.com/''
      then Some \<lparr> url_protocol = ''https:'', url_hostname = Abs_hostname ''notes.example.com'',
                  url_pathname = ''/'', url_search = [], url_hash = [] \<rparr>
      else if s = ''ftp://example.com''
      then Some \<lparr> url_protocol = ''ftp:'', url_hostname = Abs_hostname ''example.com'',
                  url_pathname = ''/'', url_search = [], url_hash = [] \<rparr>
      else None)"

section \<open>Name derivation (\<^verbatim>\<open>buildName\<close>)\<close>

text \<open>\<^verbatim>\<open>s.replace(/--+/g, '-')\<close>: every run of two or more dashes becomes one dash.\<close>

function collapse_dashes :: "string \<Rightarrow> string" where
  "collapse_dashes [] = []"
| "collapse_dashes (c # cs) =
     (if c = CHR ''-'' then CHR ''-'' # collapse_dashes (dropWhile (\<lambda>x. x = CHR ''-'') cs)
      else c # collapse_dashes cs)"
  by pat_completeness auto

termination collapse_dashes
  by (relation "measure length") (simp_all add: length_dropWhile_le less_Suc_eq_le)

definition buildName :: "string \<Rightarrow> string \<Rightarrow> string \<Rightarrow> int \<Rightarrow> string" where
  "buildName prefix slug hash maxLen =
     (let fixed = prefix @ ''--'' @ hash;
          availableSlugLen = maxLen - int (length fixed);
          trimmedSlug = strip_trailing (CHR ''-'') (take (nat (max 1 availableSlugLen)) slug)
      in collapse_dashes (prefix @ ''-'' @ trimmedSlug @ ''-'' @ hash))"

section \<open>The control-plane client (\<^verbatim>\<open>cf\<close>)\<close>

text \<open>What a caller passes to \<^verbatim>\<open>cf\<close>; an absent body is \<^verbatim>\<open>undefined\<close>.\<close>

record request =
  req_method :: string
  req_path :: string
  req_query :: "(string \<times> jv) list"
  req_body :: jv

text \<open>What \<^verbatim>\<open>cf\<close> passes to \<^verbatim>\<open>fetch\<close>: the URL as the string given to
  \<^verbatim>\<open>new URL\<close> with the search parameters set on it, the method, the headers, and the body
  before \<^verbatim>\<open>JSON.stringify\<close>.\<close>

record http_request =
  http_url :: "string \<times> (string \<times> string) list"
  http_method :: string
  http_headers :: "(string \<times> string) list"
  http_body :: jv

record http_response =
  resp_status :: nat
  resp_bodyText :: string

text \<open>The remote service is a parameter: a state of any type, and a \<^verbatim>\<open>fetch\<close> that answers
  a request in a state with a response (or rejects) and leaves a new state. A session is the
  list of requests sent so far with the state of the service. \<^verbatim>\<open>JSON.parse\<close> is a parameter
  too: nothing for a text that is not JSON.\<close>

type_synonym 'w fetch = "http_request \<Rightarrow> 'w \<Rightarrow> (error + http_response) \<times> 'w"

type_synonym 'w session = "http_request list \<times> 'w"

type_synonym json_parse = "string \<Rightarrow> jv option"

text \<open>\<^verbatim>\<open>url.searchParams.set(k, v)\<close>.\<close>

fun set_param :: "string \<Rightarrow> string \<Rightarrow> (string \<times> string) list \<Rightarrow> (string \<times> string) list" where
  "set_param k v [] = [(k, v)]"
| "set_param k v ((k', v') # ps) =
     (if k' = k then (k, v) # filter (\<lambda>kv. fst kv \<noteq> k) ps else (k', v') # set_param k v ps)"

definition build_url :: "request \<Rightarrow> string \<times> (string \<times> string) list" where
  "build_url req =
     (''https://api.cloudflare.com/client/v4'' @ req_path req,
      foldl (\<lambda>ps kv. if snd kv = JUndefined then ps else set_param (fst kv) (js_String (snd kv)) ps)
        [] (req_query req))"

definition build_request :: "string \<Rightarrow> request \<Rightarrow> http_request" where
  "build_request token req =
     \<lparr> http_url = build_url req,
       http_method = req_method req,
       http_headers =
         [(''Authorization'', ''Bearer '' @ token),
          (''Content-Type'', ''application/json''),
          (''User-Agent'', ''inkrypt-deploy/1.0'')],
       http_body = req_body req \<rparr>"

definition resp_ok :: "http_response \<Rightarrow> bool" where
  "resp_ok resp = (200 \<le> resp_status resp \<and> resp_status resp \<le> 299)"

text \<open>The part of \<^verbatim>\<open>cf\<close> after the response has arrived.\<close>

definition cf_response ::
  "json_parse \<Rightarrow> string \<times> (string \<times> string) list \<Rightarrow> http_response \<Rightarrow> error + jv" where
  "cf_response JSONparse u resp =
     (let bodyText = resp_bodyText resp in
      case (if bodyText \<noteq> [] then JSONparse bodyText else Some JNull) of
        None \<Rightarrow>
          Inl (CloudflareApiError
                 (''Cloudflare API returned non-JSON response ('' @ show_nat (resp_status resp) @ '')'')
                 (resp_status resp) u JUndefined bodyText)
      | Some data \<Rightarrow>
          if \<not> resp_ok resp \<or> get_prop ''success'' data = JBool False then
            (let errorMessage =
                   nullish (get_prop ''message'' (index0 (get_prop ''errors'' data)))
                     (nullish (get_prop ''message'' (index0 (get_prop ''messages'' data)))
                        (JStr (''Cloudflare API request failed ('' @ show_nat (resp_status resp) @ '')'')))
             in Inl (CloudflareApiError (js_String errorMessage) (resp_status resp) u
                       (get_prop ''errors'' data) bodyText))
          else Inr (get_prop ''result'' data))"

definition cf ::
  "json_parse \<Rightarrow> 'w fetch \<Rightarrow> string \<Rightarrow> request \<Rightarrow> 'w session \<Rightarrow> (error + jv) \<times> 'w session" where
  "cf JSONparse fetch token req s =
     (let hreq = build_request token req;
          (r, w') = fetch hreq (snd s);
          s' = (fst s @ [hreq], w')
      in case r of
           Inl e \<Rightarrow> (Inl e, s')
         | Inr resp \<Rightarrow> (cf_response JSONparse (http_url hreq) resp, s'))"

subsection \<open>A remote service for examples\<close>

text \<open>A remote service for the examples: it answers a request by a table from the method
  and the URL to a status and a body text, with status 404 and an empty body for any other
  request, and has no state.\<close>

definition fetch_table ::
  "((string \<times> string \<times> (string \<times> string) list) \<times> nat \<times> string) list \<Rightarrow> unit fetch" where
  "fetch_table tbl r w =
     (case map_of tbl (http_method r, http_url r) of
        Some (st, body) \<Rightarrow> (Inr \<lparr> resp_status = st, resp_bodyText = body \<rparr>, w)
      | None \<Rightarrow> (Inr \<lparr> resp_status = 404, resp_bodyText = [] \<rparr>, w))"

text \<open>Body texts of the examples, and \<^verbatim>\<open>JSON.parse\<close> at them.\<close>

definition json_none :: string where
  \<open>json_none = ''{"success":true,"result":[]}''\<close>

definition json_id_r2 :: string where
  \<open>json_id_r2 = ''{"success":true,"result":{"id":"r2"}}''\<close>

definition json_auth_error :: string where
  \<open>json_auth_error = ''{"success":false,"errors":[{"code":10000,"message":"Authentication error"}]}''\<close>

definition json_record_same :: string where
  \<open>json_record_same = ''{"success":true,"result":[{"id":"r1","type":"A","name":"notes.example.com","content":"203.0.113.9","proxied":true}]}''\<close>

definition json_record_other :: string where
  \<open>json_record_other = ''{"success":true,"result":[{"id":"r1","type":"A","name":"notes.example.com","content":"198.51.100.7","proxied":true}]}''\<close>

definition json_two_records :: string where
  \<open>json_two_records = ''{"success":true,"result":[{"id":"r1","type":"A","name":"notes.example.com","content":"198.51.100.7","proxied":true},{"id":"r3","type":"A","name":"notes.example.com","content":"192.0.2.1","proxied":false}]}''\<close>

definition json_id_r1 :: string where
  \<open>json_id_r1 = ''{"success":true,"result":{"id":"r1"}}''\<close>

definition json_route_other :: string where
  \<open>json_route_other = ''{"success":true,"result":[{"id":"w1","pattern":"notes.example.com/*","script":"other-worker"}]}''\<close>

definition json_route_same :: string where
  \<open>json_route_same = ''{"success":true,"result":[{"id":"w1","pattern":"notes.example.com/*","script":"inkrypt-api"}]}''\<close>

definition json_id_w2 :: string where
  \<open>json_id_w2 = ''{"success":true,"result":{"id":"w2"}}''\<close>

definition json_zone :: string where
  \<open>json_zone = ''{"success":true,"result":[{"id":"z1","name":"example.com","account":{"id":"acc1"}}]}''\<close>

lemmas sample_texts =
  json_none_def
  json_id_r2_def
  json_auth_error_def
  json_record_same_def
  json_record_other_def
  json_two_records_def
  json_id_r1_def
  json_route_other_def
  json_route_same_def
  json_id_w2_def
  json_zone_def

definition JSON_sample :: json_parse where
  "JSON_sample t =
     map_of
       [(json_none, JObj [(''success'', JBool True), (''result'', JArr [])]),
        (json_id_r2, JObj [(''success'', JBool True), (''result'', JObj [(''id'', JStr ''r2'')])]),
        (json_auth_error, JObj [(''success'', JBool False), (''errors'', JArr [JObj [(''code'', JNum 10000),
          (''message'', JStr ''Authentication error'')]])]),
        (json_record_same, JObj [(''success'', JBool True), (''result'', JArr [JObj [(''id'', JStr ''r1''),
          (''type'', JStr ''A''), (''name'', JStr ''notes.example.com''), (''content'',
          JStr ''203.0.113.9''), (''proxied'', JBool True)]])]),
        (json_record_other, JObj [(''success'', JBool True), (''result'', JArr [JObj [(''id'', JStr ''r1''),
          (''type'', JStr ''A''), (''name'', JStr ''notes.example.com''), (''content'',
          JStr ''198.51.100.7''), (''proxied'', JBool True)]])]),
        (json_two_records, JObj [(''success'', JBool True), (''result'', JArr [JObj [(''id'', JStr ''r1''),
          (''type'', JStr ''A''), (''name'', JStr ''notes.example.com''), (''content'',
          JStr ''198.51.100.7''), (''proxied'', JBool True)], JObj [(''id'', JStr ''r3''),
          (''type'', JStr ''A''), (''name'', JStr ''notes.example.com''), (''content'',
          JStr ''192.0.2.1''), (''proxied'', JBool False)]])]),
        (json_id_r1, JObj [(''success'', JBool True), (''result'', JObj [(''id'', JStr ''r1'')])]),
        (json_route_other, JObj [(''success'', JBool True), (''result'', JArr [JObj [(''id'', JStr ''w1''),
          (''pattern'', JStr ''notes.example.com/*''), (''script'', JStr ''other-worker'')]])]),
        (json_route_same, JObj [(''success'', JBool True), (''result'', JArr [JObj [(''id'', JStr ''w1''),
          (''pattern'', JStr ''notes.example.com/*''), (''script'', JStr ''inkrypt-api'')]])]),
        (json_id_w2, JObj [(''success'', JBool True), (''result'', JObj [(''id'', JStr ''w2'')])]),
        (json_zone, JObj [(''success'', JBool True), (''result'', JArr [JObj [(''id'', JStr ''z1''),
          (''name'', JStr ''example.com''), (''account'', JObj [(''id'', JStr ''acc1'')])]])])]
       t"



text \<open>The zones of the examples: \<^verbatim>\<open>example.com\<close> is an active zone of the account, and there
  is no zone named \<^verbatim>\<open>a.notes.example.com\<close>, \<^verbatim>\<open>notes.example.com\<close>, \<^verbatim>\<open>b.example.org\<close> or
  \<^verbatim>\<open>example.org\<close>.\<close>

definition zones_query :: "string \<Rightarrow> string \<times> string \<times> (string \<times> string) list" where
  "zones_query name =
     (''GET'', ''https://api.cloudflare.com/client/v4/zones'',
      [(''name'', name), (''status'', ''active''), (''per_page'', ''50''), (''page'', ''1'')])"

definition zones_remote :: "unit fetch" where
  "zones_remote =
     fetch_table
       [(zones_query ''a.notes.example.com'', 200, json_none),
        (zones_query ''notes.example.com'', 200, json_none),
        (zones_query ''example.com'', 200, json_zone),
        (zones_query ''b.example.org'', 200, json_none),
        (zones_query ''example.org'', 200, json_none)]"

section \<open>The reconciler\<close>

subsection \<open>\<^verbatim>\<open>resolveZone\<close>\<close>

record zone =
  zone_id :: jv
  zone_name :: jv
  account_id :: jv

definition zones_request :: "string \<Rightarrow> request" where
  "zones_request name =
     \<lparr> req_method = ''GET'', req_path = ''/zones'',
       req_query = [(''name'', JStr name), (''status'', JStr ''active''),
                    (''per_page'', JNum 50), (''page'', JNum 1)],
       req_body = JUndefined \<rparr>"

text \<open>The loop over the candidate names.\<close>

fun resolveZone_loop ::
  "json_parse \<Rightarrow> 'w fetch \<Rightarrow> string \<Rightarrow> string \<Rightarrow> string list \<Rightarrow> 'w session
     \<Rightarrow> (error + zone) \<times> 'w session" where
  "resolveZone_loop JSONparse fetch token normalized [] s =
     (Inl (Error (''No active Cloudflare zone found for DOMAIN='' @ normalized
             @ ''. Is it added to Cloudflare and does the token have Zone:Read?'')), s)"
| "resolveZone_loop JSONparse fetch token normalized (name # rest) s =
     (case cf JSONparse fetch token (zones_request name) s of
        (Inl e, s1) \<Rightarrow> (Inl e, s1)
      | (Inr result, s1) \<Rightarrow>
          (let z = (case result of
                      JArr xs \<Rightarrow>
                        (case find (\<lambda>z. get_prop ''name'' z = JStr name) xs of
                           Some z \<Rightarrow> z
                         | None \<Rightarrow> JUndefined)
                    | _ \<Rightarrow> JBool False)
           in if \<not> truthy z then resolveZone_loop JSONparse fetch token normalized rest s1
              else (Inr \<lparr> zone_id = get_prop ''id'' z, zone_name = get_prop ''name'' z,
                          account_id = get_prop ''id'' (get_prop ''account'' z) \<rparr>, s1)))"

definition candidates :: "string list \<Rightarrow> string list" where
  "candidates labels = map (\<lambda>i. join ''.'' (drop i labels)) [0 ..< length labels - 1]"

definition resolveZone ::
  "(string \<Rightarrow> url option) \<Rightarrow> json_parse \<Rightarrow> 'w fetch \<Rightarrow> string \<Rightarrow> jv \<Rightarrow> 'w session
     \<Rightarrow> (error + zone) \<times> 'w session" where
  "resolveZone URL JSONparse fetch token domain s =
     (case normalizeDomain_cf URL domain of
        Inl e \<Rightarrow> (Inl e, s)
      | Inr normalized \<Rightarrow>
          (let labels = str_split (CHR ''.'') normalized in
           if length labels < 2 then (Inl (Error ''DOMAIN must contain at least one dot''), s)
           else resolveZone_loop JSONparse fetch token normalized (candidates labels) s))"

text \<open>The right-aligned suffixes of a list, longest first, and the zone of an answer with
  exactly a given name: the words of the specification of \<^verbatim>\<open>resolveZone\<close>.\<close>

fun tails :: "'a list \<Rightarrow> 'a list list" where
  "tails [] = [[]]"
| "tails (x # xs) = (x # xs) # tails xs"

definition zone_named :: "jv \<Rightarrow> string \<Rightarrow> jv option" where
  "zone_named result name =
     (case result of JArr xs \<Rightarrow> find (\<lambda>z. get_prop ''name'' z = JStr name) xs | _ \<Rightarrow> None)"

subsection \<open>\<^verbatim>\<open>ensureDnsA\<close>\<close>

record dns_result =
  dns_action :: string
  dns_id :: jv

definition dns_list_request :: "string \<Rightarrow> string \<Rightarrow> request" where
  "dns_list_request zoneId recordName =
     \<lparr> req_method = ''GET'', req_path = ''/zones/'' @ zoneId @ ''/dns_records'',
       req_query = [(''name'', JStr recordName), (''per_page'', JNum 100), (''page'', JNum 1)],
       req_body = JUndefined \<rparr>"

definition desired_record :: "string \<Rightarrow> string \<Rightarrow> jv \<Rightarrow> jv" where
  "desired_record recordName ip proxied =
     JObj [(''type'', JStr ''A''), (''name'', JStr recordName), (''content'', JStr ip),
           (''ttl'', JNum 1), (''proxied'', nullish proxied (JBool True))]"

definition dns_matches :: "jv \<Rightarrow> string \<Rightarrow> string \<Rightarrow> jv \<Rightarrow> bool" where
  "dns_matches record recordName ip proxied =
     (get_prop ''type'' record = JStr ''A''
      \<and> toLowerCase (js_String (get_prop ''name'' record)) = toLowerCase recordName
      \<and> js_String (get_prop ''content'' record) = ip
      \<and> truthy (get_prop ''proxied'' record) = truthy (nullish proxied (JBool True)))"

text \<open>The two writes of \<^verbatim>\<open>ensureDnsA\<close>: the create, and the full update of the record found.\<close>

definition dns_create_request :: "string \<Rightarrow> jv \<Rightarrow> request" where
  "dns_create_request zoneId desired =
     \<lparr> req_method = ''POST'', req_path = ''/zones/'' @ zoneId @ ''/dns_records'',
       req_query = [], req_body = desired \<rparr>"

definition dns_update_request :: "string \<Rightarrow> jv \<Rightarrow> jv \<Rightarrow> request" where
  "dns_update_request zoneId record desired =
     \<lparr> req_method = ''PUT'',
       req_path = ''/zones/'' @ zoneId @ ''/dns_records/'' @ js_String (get_prop ''id'' record),
       req_query = [], req_body = desired \<rparr>"

definition ensureDnsA ::
  "json_parse \<Rightarrow> 'w fetch \<Rightarrow> string \<Rightarrow> string \<Rightarrow> string \<Rightarrow> string \<Rightarrow> jv \<Rightarrow> bool \<Rightarrow> 'w session
     \<Rightarrow> (error + dns_result) \<times> 'w session" where
  "ensureDnsA JSONparse fetch token zoneId recordName ip proxied force s =
     (case cf JSONparse fetch token (dns_list_request zoneId recordName) s of
        (Inl e, s1) \<Rightarrow> (Inl e, s1)
      | (Inr records, s1) \<Rightarrow>
          (let existing = (case records of JArr xs \<Rightarrow> xs | _ \<Rightarrow> []) in
           if length existing > 1
           then (Inl (Error (''Multiple DNS records exist for '' @ recordName
                        @ ''. Refusing to continue.'')), s1)
           else
             let desired = desired_record recordName ip proxied in
             case existing of
               [] \<Rightarrow>
                 (case cf JSONparse fetch token (dns_create_request zoneId desired) s1 of
                    (Inl e, s2) \<Rightarrow> (Inl e, s2)
                  | (Inr created, s2) \<Rightarrow>
                      (Inr \<lparr> dns_action = ''created'', dns_id = get_prop ''id'' created \<rparr>, s2))
             | record # _ \<Rightarrow>
                 if dns_matches record recordName ip proxied
                 then (Inr \<lparr> dns_action = ''unchanged'', dns_id = get_prop ''id'' record \<rparr>, s1)
                 else if \<not> force
                 then (Inl (Error (''DNS record for '' @ recordName
                              @ '' exists but does not match expected A -> '' @ ip
                              @ ''. Set FORCE_TAKEOVER_DNS=true to override.'')), s1)
                 else if record = JNull \<or> record = JUndefined
                 then (Inl (TypeError ''Cannot read properties of null''), s1)
                 else
                   (case cf JSONparse fetch token (dns_update_request zoneId record desired) s1 of
                      (Inl e, s2) \<Rightarrow> (Inl e, s2)
                    | (Inr updated, s2) \<Rightarrow>
                        (Inr \<lparr> dns_action = ''updated'',
                               dns_id = nullish (get_prop ''id'' updated) (get_prop ''id'' record) \<rparr>,
                         s2))))"

subsection \<open>\<^verbatim>\<open>ensureWorkerRoutes\<close>\<close>

definition route_body :: "string \<Rightarrow> string \<Rightarrow> jv" where
  "route_body pattern workerName = JObj [(''pattern'', JStr pattern), (''script'', JStr workerName)]"

definition route_create :: "string \<Rightarrow> string \<Rightarrow> string \<Rightarrow> request" where
  "route_create zoneId workerName pattern =
     \<lparr> req_method = ''POST'', req_path = ''/zones/'' @ zoneId @ ''/workers/routes'',
       req_query = [], req_body = route_body pattern workerName \<rparr>"

definition route_update :: "string \<Rightarrow> string \<Rightarrow> string \<Rightarrow> jv \<Rightarrow> request" where
  "route_update zoneId workerName pattern existing =
     \<lparr> req_method = ''PUT'',
       req_path = ''/zones/'' @ zoneId @ ''/workers/routes/'' @ js_String (get_prop ''id'' existing),
       req_query = [], req_body = route_body pattern workerName \<rparr>"

text \<open>\<^verbatim>\<open>list.find((r) => String(r?.pattern).toLowerCase() === String(pattern).toLowerCase())\<close>,
  \<^verbatim>\<open>undefined\<close> when no element passes.\<close>

definition find_route :: "jv list \<Rightarrow> string \<Rightarrow> jv" where
  "find_route list pattern =
     (case find (\<lambda>r. toLowerCase (js_String (get_prop ''pattern'' r)) = toLowerCase pattern) list of
        Some r \<Rightarrow> r
      | None \<Rightarrow> JUndefined)"

text \<open>The loop over the patterns; \<open>list\<close> is the list of routes fetched before the loop.\<close>

fun ensureWorkerRoutes_loop ::
  "json_parse \<Rightarrow> 'w fetch \<Rightarrow> string \<Rightarrow> string \<Rightarrow> string \<Rightarrow> bool \<Rightarrow> jv list \<Rightarrow> string list
     \<Rightarrow> 'w session \<Rightarrow> (error + unit) \<times> 'w session" where
  "ensureWorkerRoutes_loop JSONparse fetch token zoneId workerName force list [] s = (Inr (), s)"
| "ensureWorkerRoutes_loop JSONparse fetch token zoneId workerName force list (pattern # rest) s =
     (let existing = find_route list pattern in
      if \<not> truthy existing then
        (case cf JSONparse fetch token (route_create zoneId workerName pattern) s of
           (Inl e, s1) \<Rightarrow> (Inl e, s1)
         | (Inr _, s1) \<Rightarrow>
             ensureWorkerRoutes_loop JSONparse fetch token zoneId workerName force list rest s1)
      else if get_prop ''script'' existing = JStr workerName
      then ensureWorkerRoutes_loop JSONparse fetch token zoneId workerName force list rest s
      else if \<not> force
      then (Inl (Error (''Worker route '' @ pattern @ '' is already bound to ''
                   @ js_String (get_prop ''script'' existing)
                   @ ''. Set FORCE_TAKEOVER_ROUTES=true to override.'')), s)
      else
        (case cf JSONparse fetch token (route_update zoneId workerName pattern existing) s of
           (Inl e, s1) \<Rightarrow> (Inl e, s1)
         | (Inr _, s1) \<Rightarrow>
             ensureWorkerRoutes_loop JSONparse fetch token zoneId workerName force list rest s1))"

definition routes_list_request :: "string \<Rightarrow> request" where
  "routes_list_request zoneId =
     \<lparr> req_method = ''GET'', req_path = ''/zones/'' @ zoneId @ ''/workers/routes'',
       req_query = [], req_body = JUndefined \<rparr>"

definition ensureWorkerRoutes ::
  "json_parse \<Rightarrow> 'w fetch \<Rightarrow> string \<Rightarrow> string \<Rightarrow> string \<Rightarrow> string list \<Rightarrow> bool \<Rightarrow> 'w session
     \<Rightarrow> (error + unit) \<times> 'w session" where
  "ensureWorkerRoutes JSONparse fetch token zoneId workerName patterns force s =
     (case cf JSONparse fetch token (routes_list_request zoneId) s of
        (Inl e, s1) \<Rightarrow> (Inl e, s1)
      | (Inr routes, s1) \<Rightarrow>
          (let list = (case routes of JArr xs \<Rightarrow> xs | _ \<Rightarrow> []) in
           ensureWorkerRoutes_loop JSONparse fetch token zoneId workerName force list patterns s1))"







section \<open>Command dispatch of \<^verbatim>\<open>deploy/cf-api.mjs\<close>\<close>

text \<open>What a run writes, in order: the usage text and the unknown-command line go to the error
  stream, as does an uncaught error (the platform prints it and ends the process with exit
  code 1); a step output is appended to the file named by \<^verbatim>\<open>GITHUB_OUTPUT\<close>; the three
  status lines go to the standard output.\<close>

datatype emitted =
    Usage
  | UnknownCommand string
  | UncaughtError error
  | GithubOutput string string
  | ResolvedZone string zone
  | DnsDone string string string
  | RoutesEnsured nat

record outcome =
  exit_code :: nat
  emitted :: "emitted list"

definition uncaught :: "error \<Rightarrow> outcome" where
  "uncaught e = \<lparr> exit_code = 1, emitted = [UncaughtError e] \<rparr>"

definition githubOutput :: "(string \<rightharpoonup> string) \<Rightarrow> string \<Rightarrow> jv \<Rightarrow> emitted list" where
  "githubOutput env key v =
     (if \<not> truthy (env_get env ''GITHUB_OUTPUT'') then []
      else [GithubOutput key (js_String (nullish v (JStr [])))])"

definition getToken :: "args \<Rightarrow> (string \<rightharpoonup> string) \<Rightarrow> error + string" where
  "getToken a env =
     (let token = trim (js_String (nullish (arg_get a ''token'')
                    (nullish (env_get env ''CLOUDFLARE_API_TOKEN'') (JStr []))))
      in if token = [] then Inl (Error ''Missing CLOUDFLARE_API_TOKEN (or --token)'')
         else Inr token)"

definition domain_input :: "args \<Rightarrow> (string \<rightharpoonup> string) \<Rightarrow> jv" where
  "domain_input a env =
     nullish (arg_get a ''domain'') (nullish (env_get env ''DOMAIN'') (env_get env ''INKRYPT_DOMAIN''))"

definition cmd_resolve_zone ::
  "(string \<Rightarrow> url option) \<Rightarrow> json_parse \<Rightarrow> 'w fetch \<Rightarrow> (string \<rightharpoonup> string) \<Rightarrow> args \<Rightarrow> string
     \<Rightarrow> 'w session \<Rightarrow> outcome \<times> 'w session" where
  "cmd_resolve_zone URL JSONparse fetch env a token s =
     (case normalizeDomain_cf URL (domain_input a env) of
        Inl e \<Rightarrow> (uncaught e, s)
      | Inr domain \<Rightarrow>
          (case resolveZone URL JSONparse fetch token (JStr domain) s of
             (Inl e, s1) \<Rightarrow> (uncaught e, s1)
           | (Inr z, s1) \<Rightarrow>
               (\<lparr> exit_code = 0,
                  emitted = githubOutput env ''zone_id'' (zone_id z)
                            @ githubOutput env ''zone_name'' (zone_name z)
                            @ githubOutput env ''account_id'' (account_id z)
                            @ [ResolvedZone domain z] \<rparr>, s1)))"

definition cmd_ensure_dns_a ::
  "(string \<Rightarrow> url option) \<Rightarrow> json_parse \<Rightarrow> 'w fetch \<Rightarrow> (string \<rightharpoonup> string) \<Rightarrow> args \<Rightarrow> string
     \<Rightarrow> 'w session \<Rightarrow> outcome \<times> 'w session" where
  "cmd_ensure_dns_a URL JSONparse fetch env a token s =
     (let zoneId = trim (js_String (nullish (arg_get a ''zone-id'') (JStr []))) in
      case normalizeDomain_cf URL (nullish (arg_get a ''name'') (domain_input a env)) of
        Inl e \<Rightarrow> (uncaught e, s)
      | Inr name \<Rightarrow>
          (let ip0 = trim (js_String (nullish (arg_get a ''ip'') (JStr ''192.0.2.1'')));
               ip = (if ip0 \<noteq> [] then ip0 else ''192.0.2.1'');
               proxied = dns_proxied a;
               force = dns_force a env
           in if zoneId = [] then (uncaught (Error ''--zone-id is required''), s)
              else if name = [] then (uncaught (Error ''--name is required''), s)
              else
                (case ensureDnsA JSONparse fetch token zoneId name ip (JBool proxied) force s of
                   (Inl e, s1) \<Rightarrow> (uncaught e, s1)
                 | (Inr dns, s1) \<Rightarrow>
                     (\<lparr> exit_code = 0, emitted = [DnsDone name ip (dns_action dns)] \<rparr>, s1))))"

text \<open>The patterns of \<^verbatim>\<open>ensure-worker-routes\<close>: the entries of the argument object whose key is
  \<^verbatim>\<open>route\<close> and whose value is a string (an object has one entry for a key), each split at
  commas, the pieces trimmed, the empty ones dropped.\<close>

definition route_patterns :: "args \<Rightarrow> string list" where
  "route_patterns a =
     (let rawRoutes = (case a ''route'' of Some (JStr v) \<Rightarrow> [v] | _ \<Rightarrow> []);
          rawRoutes' = (if rawRoutes = []
                        then (case arg_get a ''route'' of JStr v \<Rightarrow> [v] | _ \<Rightarrow> [])
                        else rawRoutes)
      in filter (\<lambda>p. p \<noteq> []) (map trim (concat (map (str_split (CHR '','')) rawRoutes'))))"

definition cmd_ensure_worker_routes ::
  "json_parse \<Rightarrow> 'w fetch \<Rightarrow> (string \<rightharpoonup> string) \<Rightarrow> args \<Rightarrow> string
     \<Rightarrow> 'w session \<Rightarrow> outcome \<times> 'w session" where
  "cmd_ensure_worker_routes JSONparse fetch env a token s =
     (let zoneId = trim (js_String (nullish (arg_get a ''zone-id'') (JStr [])));
          workerName = trim (js_String (nullish (arg_get a ''worker-name'') (JStr [])))
      in if zoneId = [] then (uncaught (Error ''--zone-id is required''), s)
         else if workerName = [] then (uncaught (Error ''--worker-name is required''), s)
         else
           (let patterns = route_patterns a in
            if patterns = [] then (uncaught (Error ''At least one --route <pattern> is required''), s)
            else
              (let force = routes_force a env in
               case ensureWorkerRoutes JSONparse fetch token zoneId workerName patterns force s of
                 (Inl e, s1) \<Rightarrow> (uncaught e, s1)
               | (Inr _, s1) \<Rightarrow>
                   (\<lparr> exit_code = 0, emitted = [RoutesEnsured (length patterns)] \<rparr>, s1))))"

definition main ::
  "(string \<Rightarrow> url option) \<Rightarrow> json_parse \<Rightarrow> 'w fetch \<Rightarrow> (string \<rightharpoonup> string) \<Rightarrow> string list
     \<Rightarrow> 'w session \<Rightarrow> outcome \<times> 'w session" where
  "main URL JSONparse fetch env argv s =
     (case parseArgs argv of
        Inl e \<Rightarrow> (uncaught e, s)
      | Inr a \<Rightarrow>
          (let cmd = index0 (arg_get a ''_'') in
           if \<not> truthy cmd then (\<lparr> exit_code = 2, emitted = [Usage] \<rparr>, s)
           else
             (case getToken a env of
                Inl e \<Rightarrow> (uncaught e, s)
              | Inr token \<Rightarrow>
                  if cmd = JStr ''resolve-zone''
                  then cmd_resolve_zone URL JSONparse fetch env a token s
                  else if cmd = JStr ''ensure-dns-a''
                  then cmd_ensure_dns_a URL JSONparse fetch env a token s
                  else if cmd = JStr ''ensure-worker-routes''
                  then cmd_ensure_worker_routes JSONparse fetch env a token s
                  else (\<lparr> exit_code = 2,
                          emitted = [Usage, UnknownCommand (js_String cmd)] \<rparr>, s))))"

section \<open>Properties of the argument parser\<close>



lemma startsWith_dashes_cons [simp]: "startsWith ''--'' (CHR ''-'' # CHR ''-'' # k)"
  by (simp add: startsWith_def)












lemma option_value_defined [simp]: "option_value ys \<noteq> JUndefined" "option_value ys \<noteq> JNull"
  by (auto simp: option_value_def split: list.splits)




section \<open>The patterns of \<^verbatim>\<open>ensure-worker-routes\<close>\<close>





section \<open>Properties of \<^verbatim>\<open>buildName\<close>\<close>

lemma length_collapse_dashes: "length (collapse_dashes s) \<le> length s"
proof (induction s rule: collapse_dashes.induct)
  case 1
  then show ?case by simp
next
  case (2 c cs)
  have "length (dropWhile (\<lambda>x. x = CHR ''-'') cs) \<le> length cs"
    by (rule length_dropWhile_le)
  with 2 show ?case by auto
qed

lemma startsWith_double_dash:
  "startsWith ''--'' (c # cs) \<longleftrightarrow> c = CHR ''-'' \<and> cs \<noteq> [] \<and> hd cs = CHR ''-''"
proof (cases cs)
  case Nil
  then show ?thesis by (simp add: startsWith_def)
next
  case (Cons d ds)
  then show ?thesis by (simp add: startsWith_def)
qed

lemma double_dash_cons:
  "str_includes ''--'' (c # cs) \<longleftrightarrow>
     (c = CHR ''-'' \<and> cs \<noteq> [] \<and> hd cs = CHR ''-'') \<or> str_includes ''--'' cs"
  by (simp only: str_includes.simps startsWith_double_dash)
lemma collapse_dashes_head:
  "s \<noteq> [] \<Longrightarrow> collapse_dashes s \<noteq> [] \<and> hd (collapse_dashes s) = hd s"
  by (cases s) auto
lemma collapse_dashes_head_dash:
  assumes "r = [] \<or> hd r \<noteq> CHR ''-''"
  shows "collapse_dashes r = [] \<or> hd (collapse_dashes r) \<noteq> CHR ''-''"
proof (cases r)
  case Nil
  then show ?thesis by simp
next
  case (Cons d ds)
  with assms have "d \<noteq> CHR ''-''" by simp
  with Cons show ?thesis by simp
qed

lemma no_run_dash:
  "\<not> str_includes ''--'' r \<Longrightarrow> r = [] \<or> hd r \<noteq> CHR ''-'' \<Longrightarrow> \<not> str_includes ''--'' (CHR ''-'' # r)"
  unfolding double_dash_cons by blast

lemma no_run_other:
  "\<not> str_includes ''--'' r \<Longrightarrow> c \<noteq> CHR ''-'' \<Longrightarrow> \<not> str_includes ''--'' (c # r)"
  unfolding double_dash_cons by blast

lemma dropWhile_dash_head:
  "dropWhile (\<lambda>x. x = CHR ''-'') cs = [] \<or> hd (dropWhile (\<lambda>x. x = CHR ''-'') cs) \<noteq> CHR ''-''"
  using hd_dropWhile [of "\<lambda>x. x = CHR ''-''" cs] by blast

lemma collapse_dashes_no_run: "\<not> str_includes ''--'' (collapse_dashes s)"
proof (induction s rule: collapse_dashes.induct)
  case 1
  show ?case by (simp add: startsWith_def)
next
  case (2 c cs)
  show ?case
  proof (cases "c = CHR ''-''")
    case True
    let ?r = "dropWhile (\<lambda>x. x = CHR ''-'') cs"
    have ih: "\<not> str_includes ''--'' (collapse_dashes ?r)" using 2(1) True by blast
    have hd: "collapse_dashes ?r = [] \<or> hd (collapse_dashes ?r) \<noteq> CHR ''-''"
      by (rule collapse_dashes_head_dash [OF dropWhile_dash_head])
    have eq: "collapse_dashes (c # cs) = CHR ''-'' # collapse_dashes ?r"
      using True by simp
    show ?thesis unfolding eq by (rule no_run_dash [OF ih hd])
  next
    case False
    then have ih: "\<not> str_includes ''--'' (collapse_dashes cs)" using 2(2) by blast
    have eq: "collapse_dashes (c # cs) = c # collapse_dashes cs"
      using False by simp
    show ?thesis unfolding eq by (rule no_run_other [OF ih False])
  qed
qed

lemma length_strip_trailing: "length (strip_trailing c s) \<le> length s"
  by (simp add: strip_trailing_def length_dropWhile_le [of _ "rev s", simplified])

lemma strip_trailing_last: "strip_trailing c s = [] \<or> last (strip_trailing c s) \<noteq> c"
proof -
  let ?r = "dropWhile (\<lambda>x. x = c) (rev s)"
  have "?r = [] \<or> hd ?r \<noteq> c"
    using hd_dropWhile [of "\<lambda>x. x = c" "rev s"] by blast
  then show ?thesis
    by (auto simp: strip_trailing_def last_rev)
qed

text \<open>
  C5 (as amended). With \<open>t\<close> the slug cut to \<^verbatim>\<open>max(1, maxLen - (prefix + "--" + hash).length)\<close>
  characters and without the dashes at its end, \<^verbatim>\<open>buildName\<close> is
  \<^verbatim>\<open>prefix-t-hash\<close> with every run of dashes collapsed: it has no two dashes in a row, and
  its length is at most \<open>maxLen\<close> whenever prefix and hash leave room for one character of
  the slug (\<open>length prefix + length hash + 3 \<le> maxLen\<close>), and at most
  \<open>length prefix + length hash + 3\<close> otherwise.
\<close>

theorem buildName_bounded:
  "(let t = strip_trailing (CHR ''-'')
              (take (nat (max 1 (maxLen - int (length (prefix @ ''--'' @ hash))))) slug)
    in buildName prefix slug hash maxLen = collapse_dashes (prefix @ ''-'' @ t @ ''-'' @ hash)
       \<and> int (length t) \<le> max 1 (maxLen - int (length (prefix @ ''--'' @ hash)))
       \<and> (t = [] \<or> last t \<noteq> CHR ''-''))
   \<and> \<not> str_includes ''--'' (buildName prefix slug hash maxLen)
   \<and> int (length (buildName prefix slug hash maxLen))
       \<le> max maxLen (int (length prefix + length hash + 3))
   \<and> (int (length prefix + length hash + 3) \<le> maxLen \<longrightarrow>
        int (length (buildName prefix slug hash maxLen)) \<le> maxLen)"
proof -
  define t where "t = strip_trailing (CHR ''-'')
              (take (nat (max 1 (maxLen - int (length (prefix @ ''--'' @ hash))))) slug)"
  let ?k = "max 1 (maxLen - int (length (prefix @ ''--'' @ hash)))"
  have eq: "buildName prefix slug hash maxLen = collapse_dashes (prefix @ ''-'' @ t @ ''-'' @ hash)"
    by (simp add: buildName_def t_def Let_def)
  have "length t \<le> length (take (nat ?k) slug)"
    unfolding t_def by (rule length_strip_trailing)
  also have "\<dots> \<le> nat ?k" by simp
  finally have lt: "int (length t) \<le> ?k" by linarith
  have last: "t = [] \<or> last t \<noteq> CHR ''-''"
    unfolding t_def by (rule strip_trailing_last)
  have norun: "\<not> str_includes ''--'' (buildName prefix slug hash maxLen)"
    unfolding eq by (rule collapse_dashes_no_run)
  have "length (buildName prefix slug hash maxLen) \<le> length (prefix @ ''-'' @ t @ ''-'' @ hash)"
    unfolding eq by (rule length_collapse_dashes)
  then have "int (length (buildName prefix slug hash maxLen))
      \<le> int (length prefix) + int (length hash) + 2 + int (length t)"
    by simp
  with lt have bound: "int (length (buildName prefix slug hash maxLen))
      \<le> max maxLen (int (length prefix + length hash + 3))"
    by simp
  then have fits: "int (length prefix + length hash + 3) \<le> maxLen \<longrightarrow>
            int (length (buildName prefix slug hash maxLen)) \<le> maxLen"
    by linarith
  have first: "buildName prefix slug hash maxLen = collapse_dashes (prefix @ ''-'' @ t @ ''-'' @ hash)
       \<and> int (length t) \<le> max 1 (maxLen - int (length (prefix @ ''--'' @ hash)))
       \<and> (t = [] \<or> last t \<noteq> CHR ''-'')"
    using eq lt last by (intro conjI)
  show ?thesis
    unfolding Let_def t_def [symmetric]
    using first norun bound fits by (intro conjI) (elim conjE, assumption)+
qed

theorem buildName_bounded_witness:
  "buildName ''inkrypt-api'' ''notes-example-com'' ''abcd1234'' 63
     = ''inkrypt-api-notes-example-com-abcd1234''
   \<and> int (length ''inkrypt-api'' + length ''abcd1234'' + 3) \<le> 63
   \<and> int (length (buildName ''inkrypt-api'' ''notes-example-com'' ''abcd1234'' 63)) \<le> 63
   \<and> buildName ''inkrypt'' ''a-very-long-host-name-with-many-labels-example-com'' ''abcd1234'' 30
     = ''inkrypt-a-very-long-h-abcd1234''"
proof -
  have 1: "buildName ''inkrypt-api'' ''notes-example-com'' ''abcd1234'' 63
     = ''inkrypt-api-notes-example-com-abcd1234''"
    by (simp add: buildName_def strip_trailing_def)
  have 2: "int (length ''inkrypt-api'' + length ''abcd1234'' + 3) \<le> 63" by simp
  have 3: "buildName ''inkrypt'' ''a-very-long-host-name-with-many-labels-example-com'' ''abcd1234'' 30
     = ''inkrypt-a-very-long-h-abcd1234''"
    by (simp add: buildName_def strip_trailing_def)
  have "int (length ''inkrypt-api'' + length ''abcd1234'' + 3) \<le> 63 \<longrightarrow>
      int (length (buildName ''inkrypt-api'' ''notes-example-com'' ''abcd1234'' 63)) \<le> 63"
    using buildName_bounded [where prefix = "''inkrypt-api''" and slug = "''notes-example-com''"
      and hash = "''abcd1234''" and maxLen = 63]
    by (elim conjE)
  from this 2
  have 4: "int (length (buildName ''inkrypt-api'' ''notes-example-com'' ''abcd1234'' 63)) \<le> 63"
    by (rule mp)
  show ?thesis using 1 2 4 3 by (intro conjI)
qed

text \<open>The claim as written fails for a prefix that leaves no room: the name keeps one
  character of the slug and is longer than \<open>maxLen\<close>.\<close>

theorem buildName_too_long_counterexample:
  "buildName ''inkrypt-api-for-a-deployment-with-a-rather-long-prefix'' ''notes'' ''abcd1234'' 63
     = ''inkrypt-api-for-a-deployment-with-a-rather-long-prefix-n-abcd1234''
   \<and> length (buildName ''inkrypt-api-for-a-deployment-with-a-rather-long-prefix'' ''notes''
               ''abcd1234'' 63) = 65"
proof -
  have "buildName ''inkrypt-api-for-a-deployment-with-a-rather-long-prefix'' ''notes'' ''abcd1234'' 63
     = ''inkrypt-api-for-a-deployment-with-a-rather-long-prefix-n-abcd1234''"
    by (simp add: buildName_def strip_trailing_def)
  then show ?thesis by simp
qed

section \<open>Properties of the normalisers\<close>

lemma normalizeDomain_rc_normalized:
  "normalizeDomain_rc URL raw = Inr d \<Longrightarrow> NormalizedDomain d"
proof (induction URL raw rule: normalizeDomain_rc.induct)
  case (1 URL raw)
  let ?input = "trim (js_String raw)"
  from "1.prems" have t: "truthy raw" and ne: "?input \<noteq> []"
    by (auto simp: normalizeDomain_rc.simps [of URL raw] Let_def split: if_splits)
  show ?case
  proof (cases "str_includes ''://'' ?input")
    case True
    with "1.prems" t ne obtain u where u: "URL ?input = Some u"
      and p: "\<not> (url_protocol u \<noteq> ''http:'' \<and> url_protocol u \<noteq> ''https:'')"
      and q: "\<not> (url_pathname u \<noteq> ''/'' \<or> url_search u \<noteq> [] \<or> url_hash u \<noteq> [])"
      and r: "normalizeDomain_rc URL (JStr (Rep_hostname (url_hostname u))) = Inr d"
      by (auto simp: normalizeDomain_rc.simps [of URL raw] Let_def split: if_splits option.splits)
    from t have "\<not> \<not> truthy raw" by simp
    from "1.IH" [OF this refl ne True u p q r] show ?thesis .
  next
    case False
    with "1.prems" t ne show ?thesis
      by (auto simp: normalizeDomain_rc.simps [of URL raw] Let_def NormalizedDomain_def
               split: if_splits option.splits)
  qed
qed


lemma lower_char_id: "c \<notin> set ''ABCDEFGHIJKLMNOPQRSTUVWXYZ'' \<Longrightarrow> lower_char c = c"
proof -
  assume "c \<notin> set ''ABCDEFGHIJKLMNOPQRSTUVWXYZ''"
  then have "map_of (zip ''ABCDEFGHIJKLMNOPQRSTUVWXYZ'' ''abcdefghijklmnopqrstuvwxyz'') c = None"
    by (subst map_of_zip_is_None) simp_all
  then show ?thesis by (simp only: lower_char_def option.case)
qed

lemma hostname_char_other:
  assumes "c \<in> set ''abcdefghijklmnopqrstuvwxyz0123456789.-''"
  shows "c \<notin> set ''ABCDEFGHIJKLMNOPQRSTUVWXYZ''"
    and "c \<notin> set [CHR 0x09, CHR 0x0A, CHR 0x0B, CHR 0x0C, CHR 0x0D, CHR 0x20]"
    and "c \<notin> set ''/?#:''"
  using assms by auto

lemma hostname_char_facts:
  assumes "c \<in> set ''abcdefghijklmnopqrstuvwxyz0123456789.-''"
  shows "\<not> is_space c" and "lower_char c = c"
    and "c \<noteq> CHR ''/''" and "c \<noteq> CHR ''?''" and "c \<noteq> CHR ''#''" and "c \<noteq> CHR '':''"
proof -
  show "\<not> is_space c"
    unfolding is_space_def by (rule hostname_char_other(2) [OF assms])
  show "lower_char c = c"
    by (rule lower_char_id [OF hostname_char_other(1) [OF assms]])
  from hostname_char_other(3) [OF assms]
  show "c \<noteq> CHR ''/''" and "c \<noteq> CHR ''?''" and "c \<noteq> CHR ''#''" and "c \<noteq> CHR '':''"
    by simp_all
qed

lemma trim_id: "s \<noteq> [] \<Longrightarrow> \<not> is_space (hd s) \<Longrightarrow> \<not> is_space (last s) \<Longrightarrow> trim s = s"
proof -
  assume ne: "s \<noteq> []" and h: "\<not> is_space (hd s)" and l: "\<not> is_space (last s)"
  from ne h have 1: "dropWhile is_space s = s" by (cases s) simp_all
  from ne l have "dropWhile is_space (rev s) = rev s"
    by (cases "rev s") (simp_all add: last_rev [symmetric] hd_rev)
  with 1 show ?thesis by (simp add: trim_def)
qed

lemma strip_trailing_id: "s = [] \<or> last s \<noteq> c \<Longrightarrow> strip_trailing c s = s"
proof -
  assume a: "s = [] \<or> last s \<noteq> c"
  then have "dropWhile (\<lambda>x. x = c) (rev s) = rev s"
    by (cases "rev s") (auto simp: hd_rev)
  then show ?thesis by (simp add: strip_trailing_def)
qed

lemma str_includes_char: "str_includes [c] s \<longleftrightarrow> c \<in> set s"
  by (induction s) (auto simp: startsWith_def)

lemma str_split_nonempty: "str_split c s \<noteq> []"
  by (induction s) (auto split: list.splits)

lemma str_split_snoc: "str_split c (s @ [c]) = str_split c s @ [[]]"
proof (induction s)
  case Nil
  show ?case by simp
next
  case (Cons x xs)
  obtain p ps where sp: "str_split c xs = p # ps"
    using str_split_nonempty [of c xs] by (cases "str_split c xs") auto
  with Cons show ?case by simp
qed

lemma check_labels_empty_last: "check_labels (xs @ [[]]) \<noteq> None"
  by (induction xs) auto

lemma normalized_no_trailing_dot:
  assumes "NormalizedDomain d"
  shows "d \<noteq> []" and "last d \<noteq> CHR ''.''"
proof -
  from assms show ne: "d \<noteq> []" by (simp add: NormalizedDomain_def hostname_chars_def)
  show "last d \<noteq> CHR ''.''"
  proof
    assume "last d = CHR ''.''"
    with ne have "d = butlast d @ [CHR ''.'']" by (metis append_butlast_last_id)
    then have "str_split (CHR ''.'') d = str_split (CHR ''.'') (butlast d) @ [[]]"
      by (metis str_split_snoc)
    then have "check_labels (str_split (CHR ''.'') d) \<noteq> None"
      by (simp add: check_labels_empty_last)
    with assms show False by (simp add: NormalizedDomain_def)
  qed
qed

lemma hostname_chars_excl:
  assumes "hostname_chars d" and "c \<in> set ''/?#:''"
  shows "c \<notin> set d"
proof
  assume "c \<in> set d"
  with assms(1) have "c \<in> set ''abcdefghijklmnopqrstuvwxyz0123456789.-''"
    by (simp add: hostname_chars_def list_all_iff)
  from hostname_char_other(3) [OF this] assms(2) show False by contradiction
qed

lemma normalized_fixed:
  assumes "NormalizedDomain d"
  shows "normalizeDomain_rc URL (JStr d) = Inr d"
proof -
  from assms have rest: "hostname_chars d" "str_includes ''.'' d" "length d \<le> 253"
    "check_labels (str_split (CHR ''.'') d) = None"
    by (simp_all add: NormalizedDomain_def)
  from rest(1) have chars: "\<And>c. c \<in> set d \<Longrightarrow> c \<in> set ''abcdefghijklmnopqrstuvwxyz0123456789.-''"
    by (simp add: hostname_chars_def list_all_iff)
  have ne: "d \<noteq> []" and nd: "last d \<noteq> CHR ''.''"
    using assms by (rule normalized_no_trailing_dot)+
  from ne have "hd d \<in> set d" "last d \<in> set d" by simp_all
  then have "\<not> is_space (hd d)" "\<not> is_space (last d)"
    by (auto dest!: chars dest: hostname_char_facts(1))
  with ne have trim: "trim d = d" by (rule trim_id)
  have lower: "toLowerCase d = d"
    unfolding toLowerCase_def
  proof (rule map_idI)
    fix c assume "c \<in> set d"
    then show "lower_char c = c" by (rule hostname_char_facts(2) [OF chars])
  qed
  have strip: "strip_trailing (CHR ''.'') d = d"
    by (rule strip_trailing_id) (rule disjI2, rule nd)
  have no: "\<not> str_includes ''/'' d" "\<not> str_includes ''?'' d" "\<not> str_includes ''#'' d"
    "\<not> str_includes '':'' d"
    unfolding str_includes_char by (rule hostname_chars_excl [OF rest(1)], simp)+
  have noscheme: "\<not> str_includes ''://'' d"
  proof
    assume "str_includes ''://'' d"
    then have "set ''://'' \<subseteq> set d" by (rule str_includes_set)
    then have "CHR '':'' \<in> set d" by simp
    moreover have "CHR '':'' \<notin> set d" by (rule hostname_chars_excl [OF rest(1)]) simp
    ultimately show False by contradiction
  qed
  have t: "truthy (JStr d)" using ne by simp
  have js: "js_String (JStr d) = d" by simp
  show ?thesis
    apply (subst normalizeDomain_rc.simps)
    apply (simp only: t js trim Let_def ne noscheme no lower strip rest not_True_eq_False not_False_eq_True
        if_True if_False simp_thms option.case)
    apply (simp add: not_less rest)
    done
qed

text \<open>The normaliser of the configuration resolver returns a fixed point of itself.\<close>

lemma normalizeDomain_rc_idempotent:
  "normalizeDomain_rc URL raw = Inr d \<Longrightarrow> normalizeDomain_rc URL (JStr d) = Inr d"
  by (rule normalized_fixed [OF normalizeDomain_rc_normalized])

text \<open>
  C8. Normalisation is idempotent. The normaliser of \<^verbatim>\<open>deploy/cf-api.mjs\<close> is not: it has none
  of the character checks of the other normaliser, so it accepts \<^verbatim>\<open>"a.b ."\<close>, returning
  \<^verbatim>\<open>"a.b "\<close> (the final dot goes, the blank before it stays), and on that result it returns
  \<^verbatim>\<open>"a.b"\<close>.
\<close>

theorem normalizeDomain_cf_not_idempotent:
  "normalizeDomain_cf URL (JStr ''a.b .'') = Inr ''a.b ''
   \<and> normalizeDomain_cf URL (JStr ''a.b '') = Inr ''a.b''"
proof
  have t1: "trim ''a.b .'' = ''a.b .''" by (simp add: trim_def is_space_def)
  have s1: "strip_trailing (CHR ''.'') ''a.b .'' = ''a.b ''" by (simp add: strip_trailing_def)
  have l1: "toLowerCase ''a.b '' = ''a.b ''" by (simp add: toLowerCase_def lower_char_def)
  show "normalizeDomain_cf URL (JStr ''a.b .'') = Inr ''a.b ''"
    by (subst normalizeDomain_cf.simps) (simp add: t1 s1 l1 startsWith_def)
  have t2: "trim ''a.b '' = ''a.b''" by (simp add: trim_def is_space_def)
  have s2: "strip_trailing (CHR ''.'') ''a.b'' = ''a.b''" by (simp add: strip_trailing_def)
  have l2: "toLowerCase ''a.b'' = ''a.b''" by (simp add: toLowerCase_def lower_char_def)
  show "normalizeDomain_cf URL (JStr ''a.b '') = Inr ''a.b''"
    by (subst normalizeDomain_cf.simps) (simp add: t2 s2 l2 startsWith_def)
qed

lemma check_labels_long:
  "l \<in> set ls \<Longrightarrow> length l > 63 \<Longrightarrow> check_labels ls \<noteq> None"
  by (induction ls) auto

lemma toLowerCase_dot: "CHR ''.'' \<in> set (toLowerCase s) \<Longrightarrow> CHR ''.'' \<in> set s"
proof -
  assume "CHR ''.'' \<in> set (toLowerCase s)"
  then obtain c where c: "c \<in> set s" and l: "lower_char c = CHR ''.''"
    by (auto simp: toLowerCase_def)
  have "c = CHR ''.''"
  proof (cases "c \<in> set ''ABCDEFGHIJKLMNOPQRSTUVWXYZ''")
    case True
    then have "lower_char c \<noteq> CHR ''.''" by (auto simp: lower_char_def)
    with l show ?thesis by contradiction
  next
    case False
    from lower_char_id [OF this] l show ?thesis by simp
  qed
  with c show ?thesis by simp
qed

lemma strip_trailing_set: "set (strip_trailing c s) \<subseteq> set s"
  unfolding strip_trailing_def using set_dropWhileD [of _ "\<lambda>x. x = c" "rev s"] by auto

text \<open>What the two normalisers do reject, for an input that is not taken as a URL (it has no
  \<^verbatim>\<open>://\<close>): a colon or a slash, and a name without a dot; for a URL, a protocol other than
  http(s) and a path; and, in the configuration resolver only, a label of more than 63
  characters.\<close>

lemma normalizeDomain_rc_rejects:
  assumes "input = trim (js_String raw)"
  shows "\<not> str_includes ''://'' input \<Longrightarrow> CHR '':'' \<in> set input \<or> CHR ''/'' \<in> set input \<Longrightarrow>
           \<exists>e. normalizeDomain_rc URL raw = Inl e"
    and "\<not> str_includes ''://'' input \<Longrightarrow> CHR ''.'' \<notin> set input \<Longrightarrow>
           \<exists>e. normalizeDomain_rc URL raw = Inl e"
    and "str_includes ''://'' input \<Longrightarrow> URL input = Some u \<Longrightarrow>
           url_protocol u \<noteq> ''http:'' \<Longrightarrow> url_protocol u \<noteq> ''https:'' \<Longrightarrow>
           \<exists>e. normalizeDomain_rc URL raw = Inl e"
    and "str_includes ''://'' input \<Longrightarrow> URL input = Some u \<Longrightarrow> url_pathname u \<noteq> ''/'' \<Longrightarrow>
           \<exists>e. normalizeDomain_rc URL raw = Inl e"
    and "\<not> str_includes ''://'' input \<Longrightarrow>
           l \<in> set (str_split (CHR ''.'') (toLowerCase (strip_trailing (CHR ''.'') input))) \<Longrightarrow>
           length l > 63 \<Longrightarrow> \<exists>e. normalizeDomain_rc URL raw = Inl e"
proof -
  show "\<not> str_includes ''://'' input \<Longrightarrow> CHR '':'' \<in> set input \<or> CHR ''/'' \<in> set input \<Longrightarrow>
           \<exists>e. normalizeDomain_rc URL raw = Inl e"
    by (subst normalizeDomain_rc.simps)
       (auto simp: Let_def assms [symmetric] str_includes_char simp del: str_includes.simps)
  show "\<not> str_includes ''://'' input \<Longrightarrow> CHR ''.'' \<notin> set input \<Longrightarrow>
           \<exists>e. normalizeDomain_rc URL raw = Inl e"
    using toLowerCase_dot [of "strip_trailing (CHR ''.'') input"] strip_trailing_set [of "CHR ''.''" input]
    by (subst normalizeDomain_rc.simps)
       (auto simp: Let_def assms [symmetric] str_includes_char simp del: str_includes.simps)
  show "str_includes ''://'' input \<Longrightarrow> URL input = Some u \<Longrightarrow>
           url_protocol u \<noteq> ''http:'' \<Longrightarrow> url_protocol u \<noteq> ''https:'' \<Longrightarrow>
           \<exists>e. normalizeDomain_rc URL raw = Inl e"
    by (subst normalizeDomain_rc.simps)
       (auto simp: Let_def assms [symmetric] simp del: str_includes.simps)
  show "str_includes ''://'' input \<Longrightarrow> URL input = Some u \<Longrightarrow> url_pathname u \<noteq> ''/'' \<Longrightarrow>
           \<exists>e. normalizeDomain_rc URL raw = Inl e"
    by (subst normalizeDomain_rc.simps)
       (auto simp: Let_def assms [symmetric] simp del: str_includes.simps)
  show "\<not> str_includes ''://'' input \<Longrightarrow>
           l \<in> set (str_split (CHR ''.'') (toLowerCase (strip_trailing (CHR ''.'') input))) \<Longrightarrow>
           length l > 63 \<Longrightarrow> \<exists>e. normalizeDomain_rc URL raw = Inl e"
    using check_labels_long [of l "str_split (CHR ''.'') (toLowerCase (strip_trailing (CHR ''.'') input))"]
    by (subst normalizeDomain_rc.simps)
       (auto simp: Let_def assms [symmetric] simp del: str_includes.simps split: option.splits)
qed

lemma normalizeDomain_cf_rejects:
  assumes "input = trim (js_String raw)"
  shows "\<not> str_includes ''://'' input \<Longrightarrow> CHR '':'' \<in> set input \<or> CHR ''/'' \<in> set input \<Longrightarrow>
           \<exists>e. normalizeDomain_cf URL raw = Inl e"
    and "\<not> str_includes ''://'' input \<Longrightarrow> CHR ''.'' \<notin> set input \<Longrightarrow>
           \<exists>e. normalizeDomain_cf URL raw = Inl e"
    and "str_includes ''://'' input \<Longrightarrow> URL input = Some u \<Longrightarrow>
           url_protocol u \<noteq> ''http:'' \<Longrightarrow> url_protocol u \<noteq> ''https:'' \<Longrightarrow>
           \<exists>e. normalizeDomain_cf URL raw = Inl e"
    and "str_includes ''://'' input \<Longrightarrow> URL input = Some u \<Longrightarrow> url_pathname u \<noteq> ''/'' \<Longrightarrow>
           \<exists>e. normalizeDomain_cf URL raw = Inl e"
proof -
  show "\<not> str_includes ''://'' input \<Longrightarrow> CHR '':'' \<in> set input \<or> CHR ''/'' \<in> set input \<Longrightarrow>
           \<exists>e. normalizeDomain_cf URL raw = Inl e"
    by (subst normalizeDomain_cf.simps)
       (auto simp: Let_def assms [symmetric] str_includes_char simp del: str_includes.simps)
  show "\<not> str_includes ''://'' input \<Longrightarrow> CHR ''.'' \<notin> set input \<Longrightarrow>
           \<exists>e. normalizeDomain_cf URL raw = Inl e"
    using toLowerCase_dot [of "strip_trailing (CHR ''.'') input"] strip_trailing_set [of "CHR ''.''" input]
    by (subst normalizeDomain_cf.simps)
       (auto simp: Let_def assms [symmetric] str_includes_char simp del: str_includes.simps)
  show "str_includes ''://'' input \<Longrightarrow> URL input = Some u \<Longrightarrow>
           url_protocol u \<noteq> ''http:'' \<Longrightarrow> url_protocol u \<noteq> ''https:'' \<Longrightarrow>
           \<exists>e. normalizeDomain_cf URL raw = Inl e"
    by (subst normalizeDomain_cf.simps)
       (auto simp: Let_def assms [symmetric] simp del: str_includes.simps)
  show "str_includes ''://'' input \<Longrightarrow> URL input = Some u \<Longrightarrow> url_pathname u \<noteq> ''/'' \<Longrightarrow>
           \<exists>e. normalizeDomain_cf URL raw = Inl e"
    by (subst normalizeDomain_cf.simps)
       (auto simp: Let_def assms [symmetric] simp del: str_includes.simps)
qed

lemma Rep_example [simp]: "Rep_hostname (Abs_hostname ''example.com'') = ''example.com''"
  by (rule Abs_hostname_inverse) simp

lemma bare_example_rc: "normalizeDomain_rc URL (JStr ''example.com'') = Inr ''example.com''"
proof -
  have t: "trim ''example.com'' = ''example.com''" by (simp add: trim_def is_space_def)
  have s: "strip_trailing (CHR ''.'') ''example.com'' = ''example.com''"
    by (simp add: strip_trailing_def)
  have l: "toLowerCase ''example.com'' = ''example.com''"
    by (simp add: toLowerCase_def lower_char_def)
  have h: "hostname_chars ''example.com''" by (simp add: hostname_chars_def)
  show ?thesis
    by (subst normalizeDomain_rc.simps) (simp add: t s l h startsWith_def label_chars_def endsWith_def)
qed

lemma bare_example_cf: "normalizeDomain_cf URL (JStr ''example.com'') = Inr ''example.com''"
proof -
  have t: "trim ''example.com'' = ''example.com''" by (simp add: trim_def is_space_def)
  have s: "strip_trailing (CHR ''.'') ''example.com'' = ''example.com''"
    by (simp add: strip_trailing_def)
  have l: "toLowerCase ''example.com'' = ''example.com''"
    by (simp add: toLowerCase_def lower_char_def)
  show ?thesis
    by (subst normalizeDomain_cf.simps) (simp add: t s l startsWith_def)
qed

lemma url_port_input:
  "trim ''http://example.com:8080'' = ''http://example.com:8080''"
  "str_includes ''://'' ''http://example.com:8080''"
  by (simp_all add: trim_def is_space_def startsWith_def)

text \<open>
  C3. \<^verbatim>\<open>normalizeDomain\<close> fails for every input with a port, a path, a scheme other than
  http(s), a single label or a label of more than 63 characters. Both normalisers accept a
  URL with a port: they check the protocol, the path, the query and the fragment of the
  parsed URL and then go on with its host name, which has no port. The normaliser of
  \<^verbatim>\<open>deploy/cf-api.mjs\<close> also accepts a label of 64 characters: it has no check of the labels.
\<close>

theorem normalizeDomain_accepts_url_port:
  "normalizeDomain_rc URL_sample (JStr ''http://example.com:8080'') = Inr ''example.com''
   \<and> normalizeDomain_cf URL_sample (JStr ''http://example.com:8080'') = Inr ''example.com''
   \<and> normalizeDomain_cf URL_sample
        (JStr ''aaaaaaaaaaaaaaaaaaaaaaaaaaaaaaaaaaaaaaaaaaaaaaaaaaaaaaaaaaaaaaaa.example.com'')
       = Inr ''aaaaaaaaaaaaaaaaaaaaaaaaaaaaaaaaaaaaaaaaaaaaaaaaaaaaaaaaaaaaaaaa.example.com''
   \<and> length ''aaaaaaaaaaaaaaaaaaaaaaaaaaaaaaaaaaaaaaaaaaaaaaaaaaaaaaaaaaaaaaaa'' = 64"
proof (intro conjI)
  show "normalizeDomain_rc URL_sample (JStr ''http://example.com:8080'') = Inr ''example.com''"
    by (subst normalizeDomain_rc.simps)
       (simp add: url_port_input URL_sample_def bare_example_rc del: str_includes.simps)
  show "normalizeDomain_cf URL_sample (JStr ''http://example.com:8080'') = Inr ''example.com''"
    by (subst normalizeDomain_cf.simps)
       (simp add: url_port_input URL_sample_def bare_example_cf del: str_includes.simps)
  let ?d = "''aaaaaaaaaaaaaaaaaaaaaaaaaaaaaaaaaaaaaaaaaaaaaaaaaaaaaaaaaaaaaaaa.example.com''"
  have t: "trim ?d = ?d" by (simp add: trim_def is_space_def)
  have s: "strip_trailing (CHR ''.'') ?d = ?d" by (simp add: strip_trailing_def)
  have l: "toLowerCase ?d = ?d" by (simp add: toLowerCase_def lower_char_def)
  have i: "\<not> str_includes ''/'' ?d" "\<not> str_includes ''?'' ?d"
    "\<not> str_includes ''#'' ?d" "\<not> str_includes '':'' ?d" "str_includes ''.'' ?d"
    unfolding str_includes_char by simp_all
  have n: "\<not> str_includes ''://'' ?d"
  proof
    assume "str_includes ''://'' ?d"
    then have "set ''://'' \<subseteq> set ?d" by (rule str_includes_set)
    then show False by simp
  qed
  show "normalizeDomain_cf URL_sample (JStr ?d) = Inr ?d"
    by (subst normalizeDomain_cf.simps) (simp add: t s l i n del: str_includes.simps)
  show "length ''aaaaaaaaaaaaaaaaaaaaaaaaaaaaaaaaaaaaaaaaaaaaaaaaaaaaaaaaaaaaaaaa'' = 64"
    by simp
qed

section \<open>Properties of the control-plane client\<close>

lemma cf_response_cases:
  "cf_response JSONparse u resp =
     (case (if resp_bodyText resp \<noteq> [] then JSONparse (resp_bodyText resp) else Some JNull) of
        None \<Rightarrow>
          Inl (CloudflareApiError
                 (''Cloudflare API returned non-JSON response ('' @ show_nat (resp_status resp) @ '')'')
                 (resp_status resp) u JUndefined (resp_bodyText resp))
      | Some d \<Rightarrow>
          if \<not> resp_ok resp \<or> get_prop ''success'' d = JBool False
          then Inl (CloudflareApiError
                 (js_String (nullish (get_prop ''message'' (index0 (get_prop ''errors'' d)))
                     (nullish (get_prop ''message'' (index0 (get_prop ''messages'' d)))
                        (JStr (''Cloudflare API request failed ('' @ show_nat (resp_status resp) @ '')'')))))
                 (resp_status resp) u (get_prop ''errors'' d) (resp_bodyText resp))
          else Inr (get_prop ''result'' d))"
  unfolding cf_response_def Let_def by (rule refl)

lemma cf_fetch:
  "fetch (build_request token req) (snd s) = (r, w') \<Longrightarrow>
   cf JSONparse fetch token req s =
     (case r of Inl e \<Rightarrow> Inl e | Inr resp \<Rightarrow> cf_response JSONparse (build_url req) resp,
      (fst s @ [build_request token req], w'))"
  by (cases r) (simp_all add: cf_def Let_def build_request_def)

text \<open>
  C6. For a request that \<^verbatim>\<open>fetch\<close> answers with a response, \<^verbatim>\<open>cf\<close> sends that one request and
  fails with a \<^verbatim>\<open>CloudflareApiError\<close> carrying the status, the URL and the body text exactly
  when the status is not 2xx, or the body is not empty and not JSON, or the parsed body has
  \<^verbatim>\<open>success\<close> equal to \<^verbatim>\<open>false\<close>; the error carries the \<^verbatim>\<open>errors\<close> of the parsed body
  (none for a body that is not JSON). Otherwise \<^verbatim>\<open>cf\<close> returns the \<^verbatim>\<open>result\<close> of the parsed
  body.
\<close>

theorem cf_contract:
  assumes "fetch (build_request token req) (snd s) = (Inr resp, w')"
  shows
    "(let parsed = (if resp_bodyText resp \<noteq> [] then JSONparse (resp_bodyText resp) else Some JNull);
          failing = (\<not> (200 \<le> resp_status resp \<and> resp_status resp \<le> 299)
                     \<or> parsed = None
                     \<or> (\<exists>d. parsed = Some d \<and> get_prop ''success'' d = JBool False))
      in snd (cf JSONparse fetch token req s) = (fst s @ [build_request token req], w')
         \<and> (failing \<longleftrightarrow>
              (\<exists>msg errs. fst (cf JSONparse fetch token req s)
                   = Inl (CloudflareApiError msg (resp_status resp) (build_url req) errs
                            (resp_bodyText resp))))
         \<and> (failing \<longleftrightarrow> (\<exists>e. fst (cf JSONparse fetch token req s) = Inl e))
         \<and> (case parsed of
               None \<Rightarrow>
                 (\<exists>msg. fst (cf JSONparse fetch token req s)
                    = Inl (CloudflareApiError msg (resp_status resp) (build_url req) JUndefined
                             (resp_bodyText resp)))
             | Some d \<Rightarrow>
                 if failing
                 then (\<exists>msg. fst (cf JSONparse fetch token req s)
                    = Inl (CloudflareApiError msg (resp_status resp) (build_url req)
                             (get_prop ''errors'' d) (resp_bodyText resp)))
                 else fst (cf JSONparse fetch token req s) = Inr (get_prop ''result'' d)))"
proof -
  have eq: "cf JSONparse fetch token req s =
     (cf_response JSONparse (build_url req) resp, (fst s @ [build_request token req], w'))"
    using cf_fetch [where fetch = fetch and token = token and req = req and s = s
        and r = "Inr resp" and w' = w' and JSONparse = JSONparse] assms by simp
  show ?thesis
    unfolding eq Let_def fst_conv snd_conv cf_response_cases resp_ok_def
    by (cases "if resp_bodyText resp \<noteq> [] then JSONparse (resp_bodyText resp) else Some JNull")
       (simp_all del: get_prop.simps index0.simps js_String.simps)
qed

lemma JSON_sample_none: "JSON_sample json_none = Some (JObj [(''success'', JBool True), (''result'', JArr [])])"
  by (simp add: JSON_sample_def)

lemma JSON_sample_auth_error:
  "JSON_sample json_auth_error =
     Some (JObj [(''success'', JBool False),
                 (''errors'', JArr [JObj [(''code'', JNum 10000),
                                          (''message'', JStr ''Authentication error'')]])])"
  by (simp add: JSON_sample_def sample_texts)

lemma sample_texts_nonempty:
  "json_none \<noteq> []" "json_id_r2 \<noteq> []" "json_auth_error \<noteq> []" "json_record_same \<noteq> []"
  "json_record_other \<noteq> []" "json_two_records \<noteq> []" "json_id_r1 \<noteq> []"
  "json_route_other \<noteq> []" "json_route_same \<noteq> []" "json_id_w2 \<noteq> []" "json_zone \<noteq> []"
  by (simp_all add: sample_texts)

theorem cf_contract_witness:
  "fetch_table [((''GET'', ''https://api.cloudflare.com/client/v4/zones/z1/workers/routes'', []),
                  200, json_none)]
       (build_request ''tok'' (routes_list_request ''z1'')) ()
     = (Inr \<lparr> resp_status = 200, resp_bodyText = json_none \<rparr>, ())
   \<and> fst (cf JSON_sample
         (fetch_table [((''GET'', ''https://api.cloudflare.com/client/v4/zones/z1/workers/routes'', []),
                        200, json_none)])
         ''tok'' (routes_list_request ''z1'') ([], ()))
     = Inr (JArr [])
   \<and> fetch_table [((''GET'', ''https://api.cloudflare.com/client/v4/zones/z1/workers/routes'', []),
                  403, json_auth_error)]
       (build_request ''tok'' (routes_list_request ''z1'')) ()
     = (Inr \<lparr> resp_status = 403, resp_bodyText = json_auth_error \<rparr>, ())
   \<and> (\<exists>msg. fst (cf JSON_sample
         (fetch_table [((''GET'', ''https://api.cloudflare.com/client/v4/zones/z1/workers/routes'', []),
                        403, json_auth_error)])
         ''tok'' (routes_list_request ''z1'') ([], ()))
       = Inl (CloudflareApiError msg 403
                (''https://api.cloudflare.com/client/v4/zones/z1/workers/routes'', [])
                (JArr [JObj [(''code'', JNum 10000), (''message'', JStr ''Authentication error'')]])
                json_auth_error))"
proof -
  let ?ok = "fetch_table [((''GET'', ''https://api.cloudflare.com/client/v4/zones/z1/workers/routes'', []),
                  200, json_none)]"
  let ?no = "fetch_table [((''GET'', ''https://api.cloudflare.com/client/v4/zones/z1/workers/routes'', []),
                  403, json_auth_error)]"
  have u: "build_url (routes_list_request ''z1'')
      = (''https://api.cloudflare.com/client/v4/zones/z1/workers/routes'', [])"
    by (simp add: build_url_def routes_list_request_def)
  have f1: "?ok (build_request ''tok'' (routes_list_request ''z1'')) (snd ([], ()))
     = (Inr \<lparr> resp_status = 200, resp_bodyText = json_none \<rparr>, ())"
    by (simp add: fetch_table_def build_request_def u) (simp add: routes_list_request_def)
  have f2: "?no (build_request ''tok'' (routes_list_request ''z1'')) (snd ([], ()))
     = (Inr \<lparr> resp_status = 403, resp_bodyText = json_auth_error \<rparr>, ())"
    by (simp add: fetch_table_def build_request_def u) (simp add: routes_list_request_def)
  from cf_contract [where fetch = ?ok and token = "''tok''" and req = "routes_list_request ''z1''"
      and s = "([], ())" and w' = "()" and JSONparse = JSON_sample, OF f1]
  have 1: "fst (cf JSON_sample ?ok ''tok'' (routes_list_request ''z1'') ([], ())) = Inr (JArr [])"
    by (simp add: JSON_sample_none sample_texts_nonempty Let_def)
  from cf_contract [where fetch = ?no and token = "''tok''" and req = "routes_list_request ''z1''"
      and s = "([], ())" and w' = "()" and JSONparse = JSON_sample, OF f2]
  have 2: "\<exists>msg. fst (cf JSON_sample ?no ''tok'' (routes_list_request ''z1'') ([], ()))
       = Inl (CloudflareApiError msg 403
                (''https://api.cloudflare.com/client/v4/zones/z1/workers/routes'', [])
                (JArr [JObj [(''code'', JNum 10000), (''message'', JStr ''Authentication error'')]])
                json_auth_error)"
    by (simp add: JSON_sample_auth_error sample_texts_nonempty Let_def u)
  from f1 f2 1 2 show ?thesis by simp
qed

section \<open>Properties of \<^verbatim>\<open>ensureDnsA\<close>\<close>

lemma cf_log:
  "cf JSONparse fetch token req s = (r, s') \<Longrightarrow> fst s' = fst s @ [build_request token req]"
  by (auto simp: cf_def Let_def split: prod.splits sum.splits)







lemma cf_run_ok:
  "cf JSONparse fetch token req s1 = (Inr v, s2) \<Longrightarrow>
   (case cf JSONparse fetch token req s1 of
      (Inl e, s2) \<Rightarrow> (Inl e, s2)
    | (Inr v, s2) \<Rightarrow> (Inr (f v), s2)) = (Inr (f v), s2)"
  by simp

lemma cf_run_err:
  "cf JSONparse fetch token req s1 = (Inl e, s2) \<Longrightarrow>
   (case cf JSONparse fetch token req s1 of
      (Inl e, s2) \<Rightarrow> (Inl e, s2)
    | (Inr v, s2) \<Rightarrow> (Inr (f v), s2)) = (Inl e, s2)"
  by simp


lemma show_int_samples: "show_int 100 = ''100''" "show_int 1 = ''1''" "show_int 50 = ''50''"
  by (simp_all add: show_int_def show_nat.simps digit_char_def)

lemma cf_table:
  assumes "map_of tbl (req_method req, build_url req) = Some (st, body)"
    and "body \<noteq> []" and "JSON_sample body = Some d"
    and "200 \<le> st" and "st \<le> 299" and "get_prop ''success'' d \<noteq> JBool False"
  shows "cf JSON_sample (fetch_table tbl) token req s
           = (Inr (get_prop ''result'' d), (fst s @ [build_request token req], ()))"
  using assms
  by (simp add: cf_def Let_def fetch_table_def build_request_def cf_response_def resp_ok_def
        del: get_prop.simps)








section \<open>Properties of \<^verbatim>\<open>ensureWorkerRoutes\<close>\<close>



















section \<open>Properties of \<^verbatim>\<open>resolveZone\<close>\<close>

lemma candidates_Cons:
  "candidates (x # y # ys) = join ''.'' (x # y # ys) # candidates (y # ys)"
proof -
  have "[0 ..< Suc (length ys)] = 0 # map Suc [0 ..< length ys]"
    by (simp add: upt_conv_Cons map_Suc_upt del: upt_Suc)
  then show ?thesis
    by (simp add: candidates_def comp_def del: upt_Suc)
qed

lemma candidates_short: "candidates [] = []" "candidates [x] = []"
  by (simp_all add: candidates_def)

lemma candidates_tails:
  "candidates labels = map (join ''.'') (filter (\<lambda>suf. 2 \<le> length suf) (tails labels))"
proof (induction labels rule: tails.induct)
  case 1
  show ?case by (simp add: candidates_short)
next
  case (2 x xs)
  show ?case
  proof (cases xs)
    case Nil
    then show ?thesis by (simp add: candidates_short)
  next
    case (Cons y ys)
    with 2 show ?thesis by (simp add: candidates_Cons)
  qed
qed

lemma join_Cons: "ps \<noteq> [] \<Longrightarrow> join sep (p # ps) = p @ sep @ join sep ps"
  by (cases ps) simp_all

lemma join_split: "join [c] (str_split c s) = s"
proof (induction s)
  case Nil
  show ?case by simp
next
  case (Cons x xs)
  obtain p ps where sp: "str_split c xs = p # ps"
    using str_split_nonempty [of c xs] by (cases "str_split c xs") auto
  show ?case
  proof (cases "x = c")
    case True
    with Cons sp show ?thesis by (simp add: join_Cons)
  next
    case False
    with Cons sp show ?thesis by (cases ps) simp_all
  qed
qed

lemma str_split_two: "c \<in> set s \<Longrightarrow> 2 \<le> length (str_split c s)"
proof (induction s)
  case Nil
  then show ?case by simp
next
  case (Cons x xs)
  obtain p ps where sp: "str_split c xs = p # ps"
    using str_split_nonempty [of c xs] by (cases "str_split c xs") auto
  show ?case
  proof (cases "x = c")
    case True
    with sp show ?thesis by simp
  next
    case False
    with Cons.prems have "c \<in> set xs" by simp
    from Cons.IH [OF this] sp False show ?thesis by simp
  qed
qed

lemma normalizeDomain_cf_dot:
  "normalizeDomain_cf URL raw = Inr d \<Longrightarrow> CHR ''.'' \<in> set d"
proof (induction URL raw rule: normalizeDomain_cf.induct)
  case (1 URL raw)
  let ?input = "trim (js_String raw)"
  from "1.prems" have t: "truthy raw" and ne: "?input \<noteq> []"
    by (auto simp: normalizeDomain_cf.simps [of URL raw] Let_def split: if_splits)
  show ?case
  proof (cases "str_includes ''://'' ?input")
    case True
    with "1.prems" t ne obtain u where u: "URL ?input = Some u"
      and p: "\<not> (url_protocol u \<noteq> ''http:'' \<and> url_protocol u \<noteq> ''https:'')"
      and q: "\<not> (url_pathname u \<noteq> ''/'' \<or> url_search u \<noteq> [] \<or> url_hash u \<noteq> [])"
      and r: "normalizeDomain_cf URL (JStr (Rep_hostname (url_hostname u))) = Inr d"
      by (auto simp: normalizeDomain_cf.simps [of URL raw] Let_def split: if_splits option.splits)
    from t have "\<not> \<not> truthy raw" by simp
    from "1.IH" [OF this refl ne True u p q r] show ?thesis .
  next
    case False
    with "1.prems" t ne show ?thesis
      by (auto simp: normalizeDomain_cf.simps [of URL raw] Let_def str_includes_char
               simp del: str_includes.simps split: if_splits option.splits)
  qed
qed

lemma candidates_ends:
  assumes "2 \<le> length labels"
  shows "candidates labels \<noteq> []" and "hd (candidates labels) = join ''.'' labels"
    and "last (candidates labels) = join ''.'' (drop (length labels - 2) labels)"
proof -
  from assms have n: "[0 ..< length labels - 1] \<noteq> []" by simp
  then show "candidates labels \<noteq> []" by (simp add: candidates_def)
  from assms have "[0 ..< length labels - 1] = 0 # [1 ..< length labels - 1]"
    by (simp add: upt_conv_Cons)
  then show "hd (candidates labels) = join ''.'' labels" by (simp add: candidates_def)
  from n have "last (candidates labels)
      = join ''.'' (drop (last [0 ..< length labels - 1]) labels)"
    by (simp add: candidates_def last_map)
  also from assms have "last [0 ..< length labels - 1] = length labels - 2"
    by (simp add: last_upt)
  finally show "last (candidates labels) = join ''.'' (drop (length labels - 2) labels)" .
qed

lemma zone_named_object:
  assumes "zone_named result name = Some z"
  shows "get_prop ''name'' z = JStr name" and "truthy z"
proof -
  from assms obtain xs where "find (\<lambda>z. get_prop ''name'' z = JStr name) xs = Some z"
    by (cases result) (simp_all add: zone_named_def)
  then show n: "get_prop ''name'' z = JStr name" by (auto simp: find_Some_iff)
  then show "truthy z" by (cases z) simp_all
qed

lemma resolveZone_loop_step:
  assumes "cf JSONparse fetch token (zones_request name) s = (Inr result, s1)"
  shows "resolveZone_loop JSONparse fetch token normalized (name # rest) s =
           (case zone_named result name of
              None \<Rightarrow> resolveZone_loop JSONparse fetch token normalized rest s1
            | Some z \<Rightarrow>
                (Inr \<lparr> zone_id = get_prop ''id'' z, zone_name = JStr name,
                       account_id = get_prop ''id'' (get_prop ''account'' z) \<rparr>, s1))"
proof (cases "zone_named result name")
  case None
  then have "\<not> truthy (case result of
                      JArr xs \<Rightarrow>
                        (case find (\<lambda>z. get_prop ''name'' z = JStr name) xs of
                           Some z \<Rightarrow> z
                         | None \<Rightarrow> JUndefined)
                    | _ \<Rightarrow> JBool False)"
    by (cases result) (simp_all add: zone_named_def)
  with None assms show ?thesis by (simp add: Let_def)
next
  case (Some z)
  then have z: "(case result of
                      JArr xs \<Rightarrow>
                        (case find (\<lambda>z. get_prop ''name'' z = JStr name) xs of
                           Some z \<Rightarrow> z
                         | None \<Rightarrow> JUndefined)
                    | _ \<Rightarrow> JBool False) = z"
    by (cases result) (simp_all add: zone_named_def)
  from zone_named_object [OF Some] Some assms show ?thesis
    by (simp add: Let_def z del: get_prop.simps)
qed

lemma resolveZone_loop_found:
  assumes none: "\<forall>c' \<in> set pre. \<forall>s. \<exists>r s'. cf JSONparse fetch token (zones_request c') s = (Inr r, s')
                     \<and> zone_named r c' = None"
    and found: "\<forall>s. \<exists>r s'. cf JSONparse fetch token (zones_request c) s = (Inr r, s')
                     \<and> zone_named r c = Some z"
  shows "\<exists>s'. resolveZone_loop JSONparse fetch token normalized (pre @ c # post) s
               = (Inr \<lparr> zone_id = get_prop ''id'' z, zone_name = JStr c,
                        account_id = get_prop ''id'' (get_prop ''account'' z) \<rparr>, s')
             \<and> fst s' = fst s @ map (\<lambda>c. build_request token (zones_request c)) (pre @ [c])"
  using none
proof (induction pre arbitrary: s)
  case Nil
  from found obtain r s' where c: "cf JSONparse fetch token (zones_request c) s = (Inr r, s')"
    and z: "zone_named r c = Some z" by blast
  from resolveZone_loop_step [OF c, of normalized post] z cf_log [OF c]
  show ?case by simp
next
  case (Cons a pre)
  from Cons.prems obtain r s1 where c: "cf JSONparse fetch token (zones_request a) s = (Inr r, s1)"
    and z: "zone_named r a = None" by (meson list.set_intros(1))
  from Cons.prems have "\<forall>c' \<in> set pre. \<forall>s. \<exists>r s'. cf JSONparse fetch token (zones_request c') s = (Inr r, s')
                     \<and> zone_named r c' = None" by simp
  from Cons.IH [OF this, of s1] obtain s' where
    r: "resolveZone_loop JSONparse fetch token normalized (pre @ c # post) s1
               = (Inr \<lparr> zone_id = get_prop ''id'' z, zone_name = JStr c,
                        account_id = get_prop ''id'' (get_prop ''account'' z) \<rparr>, s')"
    and l: "fst s' = fst s1 @ map (\<lambda>c. build_request token (zones_request c)) (pre @ [c])"
    by blast
  from resolveZone_loop_step [OF c, of normalized "pre @ c # post"] z r l cf_log [OF c]
  show ?case by simp
qed

lemma resolveZone_loop_none:
  assumes none: "\<forall>c' \<in> set cands. \<forall>s. \<exists>r s'. cf JSONparse fetch token (zones_request c') s = (Inr r, s')
                     \<and> zone_named r c' = None"
  shows "\<exists>s'. resolveZone_loop JSONparse fetch token normalized cands s
               = (Inl (Error (''No active Cloudflare zone found for DOMAIN='' @ normalized
                     @ ''. Is it added to Cloudflare and does the token have Zone:Read?'')), s')
             \<and> fst s' = fst s @ map (\<lambda>c. build_request token (zones_request c)) cands"
  using none
proof (induction cands arbitrary: s)
  case Nil
  show ?case by simp
next
  case (Cons a cands)
  from Cons.prems obtain r s1 where c: "cf JSONparse fetch token (zones_request a) s = (Inr r, s1)"
    and z: "zone_named r a = None" by (meson list.set_intros(1))
  from Cons.prems have "\<forall>c' \<in> set cands. \<forall>s. \<exists>r s'. cf JSONparse fetch token (zones_request c') s = (Inr r, s')
                     \<and> zone_named r c' = None" by simp
  from Cons.IH [OF this, of s1] obtain s' where
    r: "resolveZone_loop JSONparse fetch token normalized cands s1
               = (Inl (Error (''No active Cloudflare zone found for DOMAIN='' @ normalized
                     @ ''. Is it added to Cloudflare and does the token have Zone:Read?'')), s')"
    and l: "fst s' = fst s1 @ map (\<lambda>c. build_request token (zones_request c)) cands"
    by blast
  from resolveZone_loop_step [OF c, of normalized cands] z r l cf_log [OF c]
  show ?case by simp
qed

text \<open>
  C4. For a domain that normalises, the normalised name has at least two labels, and the
  candidates of \<^verbatim>\<open>resolveZone\<close> are its right-aligned label suffixes of two labels or more,
  the whole name first and the last two labels last. \<^verbatim>\<open>resolveZone\<close> asks for the active
  zones with the name of each candidate in this order, one request a candidate, up to the
  first candidate whose answer has a zone of exactly that name, and returns the id, the name
  and the account id of that zone; when no answer has such a zone it has asked for every
  candidate and fails with the message that no active zone was found. (The remote answers
  the requests.)
\<close>

theorem resolveZone_first_match:
  assumes norm: "normalizeDomain_cf URL domain = Inr normalized"
  shows
    "(let labels = str_split (CHR ''.'') normalized;
          cands = map (join ''.'') (filter (\<lambda>suf. 2 \<le> length suf) (tails labels));
          run = resolveZone URL JSONparse fetch token domain s;
          asked = map (\<lambda>c. build_request token
                    \<lparr> req_method = ''GET'', req_path = ''/zones'',
                      req_query = [(''name'', JStr c), (''status'', JStr ''active''),
                                   (''per_page'', JNum 50), (''page'', JNum 1)],
                      req_body = JUndefined \<rparr>)
      in 2 \<le> length labels \<and> cands \<noteq> [] \<and> hd cands = normalized
         \<and> last cands = join ''.'' (drop (length labels - 2) labels)
         \<and> (\<forall>pre c post z.
               cands = pre @ c # post
               \<and> (\<forall>c' \<in> set pre. \<forall>s. \<exists>r s'.
                      cf JSONparse fetch token (zones_request c') s = (Inr r, s')
                      \<and> zone_named r c' = None)
               \<and> (\<forall>s. \<exists>r s'. cf JSONparse fetch token (zones_request c) s = (Inr r, s')
                      \<and> zone_named r c = Some z) \<longrightarrow>
               fst run = Inr \<lparr> zone_id = get_prop ''id'' z, zone_name = JStr c,
                               account_id = get_prop ''id'' (get_prop ''account'' z) \<rparr>
               \<and> fst (snd run) = fst s @ asked (pre @ [c]))
         \<and> ((\<forall>c \<in> set cands. \<forall>s. \<exists>r s'.
                 cf JSONparse fetch token (zones_request c) s = (Inr r, s')
                 \<and> zone_named r c = None) \<longrightarrow>
             fst run = Inl (Error (''No active Cloudflare zone found for DOMAIN='' @ normalized
                     @ ''. Is it added to Cloudflare and does the token have Zone:Read?''))
             \<and> fst (snd run) = fst s @ asked cands))"
proof -
  let ?labels = "str_split (CHR ''.'') normalized"
  let ?cands = "map (join ''.'') (filter (\<lambda>suf. 2 \<le> length suf) (tails ?labels))"
  let ?run = "resolveZone URL JSONparse fetch token domain s"
  have two: "2 \<le> length ?labels"
    by (rule str_split_two [OF normalizeDomain_cf_dot [OF norm]])
  have cands: "candidates ?labels = ?cands" by (rule candidates_tails)
  have run: "?run = resolveZone_loop JSONparse fetch token normalized ?cands s"
    using two by (simp add: resolveZone_def norm Let_def cands)
  have ends: "?cands \<noteq> []" "hd ?cands = normalized"
    "last ?cands = join ''.'' (drop (length ?labels - 2) ?labels)"
    using candidates_ends [OF two] join_split [of "CHR ''.''" normalized]
    unfolding cands by simp_all
  have asked: "(\<lambda>c. build_request token
                    \<lparr> req_method = ''GET'', req_path = ''/zones'',
                      req_query = [(''name'', JStr c), (''status'', JStr ''active''),
                                   (''per_page'', JNum 50), (''page'', JNum 1)],
                      req_body = JUndefined \<rparr>)
      = (\<lambda>c. build_request token (zones_request c))"
    by (simp add: zones_request_def)
  have found: "\<forall>pre c post z.
               ?cands = pre @ c # post
               \<and> (\<forall>c' \<in> set pre. \<forall>s. \<exists>r s'.
                      cf JSONparse fetch token (zones_request c') s = (Inr r, s')
                      \<and> zone_named r c' = None)
               \<and> (\<forall>s. \<exists>r s'. cf JSONparse fetch token (zones_request c) s = (Inr r, s')
                      \<and> zone_named r c = Some z) \<longrightarrow>
               fst ?run = Inr \<lparr> zone_id = get_prop ''id'' z, zone_name = JStr c,
                               account_id = get_prop ''id'' (get_prop ''account'' z) \<rparr>
               \<and> fst (snd ?run) = fst s @ map (\<lambda>c. build_request token (zones_request c)) (pre @ [c])"
  proof (intro allI impI)
    fix pre c post z
    assume h: "?cands = pre @ c # post
               \<and> (\<forall>c' \<in> set pre. \<forall>s. \<exists>r s'.
                      cf JSONparse fetch token (zones_request c') s = (Inr r, s')
                      \<and> zone_named r c' = None)
               \<and> (\<forall>s. \<exists>r s'. cf JSONparse fetch token (zones_request c) s = (Inr r, s')
                      \<and> zone_named r c = Some z)"
    then have eq: "?cands = pre @ c # post"
      and a: "\<forall>c' \<in> set pre. \<forall>s. \<exists>r s'.
                      cf JSONparse fetch token (zones_request c') s = (Inr r, s')
                      \<and> zone_named r c' = None"
      and b: "\<forall>s. \<exists>r s'. cf JSONparse fetch token (zones_request c) s = (Inr r, s')
                      \<and> zone_named r c = Some z"
      by blast+
    from resolveZone_loop_found [OF a b, of normalized post s]
    show "fst ?run = Inr \<lparr> zone_id = get_prop ''id'' z, zone_name = JStr c,
                               account_id = get_prop ''id'' (get_prop ''account'' z) \<rparr>
               \<and> fst (snd ?run) = fst s @ map (\<lambda>c. build_request token (zones_request c)) (pre @ [c])"
      unfolding run eq by auto
  qed
  have unmatched: "(\<forall>c \<in> set ?cands. \<forall>s. \<exists>r s'.
                 cf JSONparse fetch token (zones_request c) s = (Inr r, s')
                 \<and> zone_named r c = None) \<longrightarrow>
             fst ?run = Inl (Error (''No active Cloudflare zone found for DOMAIN='' @ normalized
                     @ ''. Is it added to Cloudflare and does the token have Zone:Read?''))
             \<and> fst (snd ?run) = fst s @ map (\<lambda>c. build_request token (zones_request c)) ?cands"
  proof
    assume a: "\<forall>c \<in> set ?cands. \<forall>s. \<exists>r s'.
                 cf JSONparse fetch token (zones_request c) s = (Inr r, s')
                 \<and> zone_named r c = None"
    from resolveZone_loop_none [OF a, of normalized s]
    show "fst ?run = Inl (Error (''No active Cloudflare zone found for DOMAIN='' @ normalized
                     @ ''. Is it added to Cloudflare and does the token have Zone:Read?''))
             \<and> fst (snd ?run) = fst s @ map (\<lambda>c. build_request token (zones_request c)) ?cands"
      unfolding run by auto
  qed
  show ?thesis
    unfolding Let_def asked
    using two ends found unmatched by (intro conjI)
qed

lemma JSON_sample_zone:
  "JSON_sample json_zone =
     Some (JObj [(''success'', JBool True),
                 (''result'', JArr [JObj [(''id'', JStr ''z1''), (''name'', JStr ''example.com''),
                                          (''account'', JObj [(''id'', JStr ''acc1'')])]])])"
  by (simp add: JSON_sample_def sample_texts)

lemma zones_key:
  "(req_method (zones_request name), build_url (zones_request name)) = zones_query name"
  by (simp add: zones_request_def build_url_def zones_query_def show_int_samples)

lemma zones_none_sample:
  assumes "name \<in> set [''a.notes.example.com'', ''notes.example.com'', ''b.example.org'', ''example.org'']"
  shows "cf JSON_sample zones_remote ''tok'' (zones_request name) s
           = (Inr (JArr []), (fst s @ [build_request ''tok'' (zones_request name)], ()))"
proof -
  have "map_of [(zones_query ''a.notes.example.com'', 200, json_none),
        (zones_query ''notes.example.com'', 200, json_none),
        (zones_query ''example.com'', 200, json_zone),
        (zones_query ''b.example.org'', 200, json_none),
        (zones_query ''example.org'', 200, json_none)]
        (req_method (zones_request name), build_url (zones_request name)) = Some (200, json_none)"
    unfolding zones_key using assms by (auto simp: zones_query_def)
  from cf_table [OF this sample_texts_nonempty(1) JSON_sample_none]
  show ?thesis by (simp add: zones_remote_def)
qed

lemma zones_found_sample:
  "cf JSON_sample zones_remote ''tok'' (zones_request ''example.com'') s
     = (Inr (JArr [JObj [(''id'', JStr ''z1''), (''name'', JStr ''example.com''),
                         (''account'', JObj [(''id'', JStr ''acc1'')])]]),
        (fst s @ [build_request ''tok'' (zones_request ''example.com'')], ()))"
proof -
  have "map_of [(zones_query ''a.notes.example.com'', 200, json_none),
        (zones_query ''notes.example.com'', 200, json_none),
        (zones_query ''example.com'', 200, json_zone),
        (zones_query ''b.example.org'', 200, json_none),
        (zones_query ''example.org'', 200, json_none)]
        (req_method (zones_request ''example.com''), build_url (zones_request ''example.com''))
      = Some (200, json_zone)"
    unfolding zones_key by (simp add: zones_query_def)
  from cf_table [OF this sample_texts_nonempty(11) JSON_sample_zone]
  show ?thesis by (simp add: zones_remote_def)
qed

lemma normalize_samples:
  "normalizeDomain_cf URL (JStr ''a.notes.example.com'') = Inr ''a.notes.example.com''"
  "normalizeDomain_cf URL (JStr ''b.example.org'') = Inr ''b.example.org''"
proof -
  have t: "trim ''a.notes.example.com'' = ''a.notes.example.com''" "trim ''b.example.org'' = ''b.example.org''"
    by (simp_all add: trim_def is_space_def)
  have s: "strip_trailing (CHR ''.'') ''a.notes.example.com'' = ''a.notes.example.com''"
    "strip_trailing (CHR ''.'') ''b.example.org'' = ''b.example.org''"
    by (simp_all add: strip_trailing_def)
  have l: "toLowerCase ''a.notes.example.com'' = ''a.notes.example.com''"
    "toLowerCase ''b.example.org'' = ''b.example.org''"
    by (simp_all add: toLowerCase_def lower_char_def)
  show "normalizeDomain_cf URL (JStr ''a.notes.example.com'') = Inr ''a.notes.example.com''"
    by (subst normalizeDomain_cf.simps) (simp add: t s l startsWith_def)
  show "normalizeDomain_cf URL (JStr ''b.example.org'') = Inr ''b.example.org''"
    by (subst normalizeDomain_cf.simps) (simp add: t s l startsWith_def)
qed

lemma candidate_samples:
  "map (join ''.'') (filter (\<lambda>suf. 2 \<le> length suf) (tails (str_split (CHR ''.'') ''a.notes.example.com'')))
     = [''a.notes.example.com'', ''notes.example.com'', ''example.com'']"
  "map (join ''.'') (filter (\<lambda>suf. 2 \<le> length suf) (tails (str_split (CHR ''.'') ''b.example.org'')))
     = [''b.example.org'', ''example.org'']"
  by simp_all

theorem resolveZone_first_match_witness:
  "(let run = resolveZone URL_sample JSON_sample zones_remote ''tok'' (JStr ''a.notes.example.com'') ([], ())
    in fst run = Inr \<lparr> zone_id = JStr ''z1'', zone_name = JStr ''example.com'',
                        account_id = JStr ''acc1'' \<rparr>
       \<and> map (\<lambda>r. map_of (snd (http_url r)) ''name'') (fst (snd run))
           = [Some ''a.notes.example.com'', Some ''notes.example.com'', Some ''example.com''])
   \<and> (let run = resolveZone URL_sample JSON_sample zones_remote ''tok'' (JStr ''b.example.org'') ([], ())
    in fst run = Inl (Error ''No active Cloudflare zone found for DOMAIN=b.example.org. Is it added to Cloudflare and does the token have Zone:Read?'')
       \<and> map (\<lambda>r. map_of (snd (http_url r)) ''name'') (fst (snd run))
           = [Some ''b.example.org'', Some ''example.org''])"
proof -
  let ?z = "JObj [(''id'', JStr ''z1''), (''name'', JStr ''example.com''),
                  (''account'', JObj [(''id'', JStr ''acc1'')])]"
  have name: "\<And>c. map_of (snd (http_url (build_request ''tok''
                    \<lparr> req_method = ''GET'', req_path = ''/zones'',
                      req_query = [(''name'', JStr c), (''status'', JStr ''active''),
                                   (''per_page'', JNum 50), (''page'', JNum 1)],
                      req_body = JUndefined \<rparr>))) ''name'' = Some c"
    by (simp add: build_request_def build_url_def)
  have none: "\<And>c. c \<in> set [''a.notes.example.com'', ''notes.example.com'', ''b.example.org'', ''example.org'']
      \<Longrightarrow> \<forall>s. \<exists>r s'. cf JSON_sample zones_remote ''tok'' (zones_request c) s = (Inr r, s')
                  \<and> zone_named r c = None"
    using zones_none_sample by (simp add: zone_named_def)
  have found: "\<forall>s. \<exists>r s'. cf JSON_sample zones_remote ''tok'' (zones_request ''example.com'') s = (Inr r, s')
                  \<and> zone_named r ''example.com'' = Some ?z"
    using zones_found_sample by (simp add: zone_named_def)
  note th1 = resolveZone_first_match [where URL = URL_sample and JSONparse = JSON_sample
      and fetch = zones_remote and token = "''tok''" and s = "([], ())",
      OF normalize_samples(1)]
  have "\<forall>pre c post z.
               [''a.notes.example.com'', ''notes.example.com'', ''example.com''] = pre @ c # post
               \<and> (\<forall>c' \<in> set pre. \<forall>s. \<exists>r s'.
                      cf JSON_sample zones_remote ''tok'' (zones_request c') s = (Inr r, s')
                      \<and> zone_named r c' = None)
               \<and> (\<forall>s. \<exists>r s'. cf JSON_sample zones_remote ''tok'' (zones_request c) s = (Inr r, s')
                      \<and> zone_named r c = Some z) \<longrightarrow>
               fst (resolveZone URL_sample JSON_sample zones_remote ''tok'' (JStr ''a.notes.example.com'') ([], ()))
                 = Inr \<lparr> zone_id = get_prop ''id'' z, zone_name = JStr c,
                               account_id = get_prop ''id'' (get_prop ''account'' z) \<rparr>
               \<and> fst (snd (resolveZone URL_sample JSON_sample zones_remote ''tok'' (JStr ''a.notes.example.com'') ([], ())))
                 = fst ([], ()) @ map (\<lambda>c. build_request ''tok''
                    \<lparr> req_method = ''GET'', req_path = ''/zones'',
                      req_query = [(''name'', JStr c), (''status'', JStr ''active''),
                                   (''per_page'', JNum 50), (''page'', JNum 1)],
                      req_body = JUndefined \<rparr>) (pre @ [c])"
    using th1 unfolding Let_def candidate_samples by (elim conjE)
  from this [rule_format, of "[''a.notes.example.com'', ''notes.example.com'']" "''example.com''" "[]" ?z]
    none found
  have w1: "(let run = resolveZone URL_sample JSON_sample zones_remote ''tok'' (JStr ''a.notes.example.com'') ([], ())
    in fst run = Inr \<lparr> zone_id = JStr ''z1'', zone_name = JStr ''example.com'',
                        account_id = JStr ''acc1'' \<rparr>
       \<and> map (\<lambda>r. map_of (snd (http_url r)) ''name'') (fst (snd run))
           = [Some ''a.notes.example.com'', Some ''notes.example.com'', Some ''example.com''])"
    by (simp add: Let_def name)
  note th2 = resolveZone_first_match [where URL = URL_sample and JSONparse = JSON_sample
      and fetch = zones_remote and token = "''tok''" and s = "([], ())",
      OF normalize_samples(2)]
  have "(\<forall>c \<in> set [''b.example.org'', ''example.org'']. \<forall>s. \<exists>r s'.
                 cf JSON_sample zones_remote ''tok'' (zones_request c) s = (Inr r, s')
                 \<and> zone_named r c = None) \<longrightarrow>
             fst (resolveZone URL_sample JSON_sample zones_remote ''tok'' (JStr ''b.example.org'') ([], ()))
               = Inl (Error (''No active Cloudflare zone found for DOMAIN='' @ ''b.example.org''
                     @ ''. Is it added to Cloudflare and does the token have Zone:Read?''))
             \<and> fst (snd (resolveZone URL_sample JSON_sample zones_remote ''tok'' (JStr ''b.example.org'') ([], ())))
               = fst ([], ()) @ map (\<lambda>c. build_request ''tok''
                    \<lparr> req_method = ''GET'', req_path = ''/zones'',
                      req_query = [(''name'', JStr c), (''status'', JStr ''active''),
                                   (''per_page'', JNum 50), (''page'', JNum 1)],
                      req_body = JUndefined \<rparr>) [''b.example.org'', ''example.org'']"
    using th2 unfolding Let_def candidate_samples by (elim conjE)
  with none
  have w2: "(let run = resolveZone URL_sample JSON_sample zones_remote ''tok'' (JStr ''b.example.org'') ([], ())
    in fst run = Inl (Error ''No active Cloudflare zone found for DOMAIN=b.example.org. Is it added to Cloudflare and does the token have Zone:Read?'')
       \<and> map (\<lambda>r. map_of (snd (http_url r)) ''name'') (fst (snd run))
           = [Some ''b.example.org'', Some ''example.org''])"
    by (simp add: Let_def name)
  from w1 w2 show ?thesis by (intro conjI)
qed

end
